theory Spec2Isabelle
  imports Main "HOL-Library.Sublist" "HOL-Library.Char_ord" "HOL-Library.List_Lexorder"
begin

section \<open>Strings, formatting and logging\<close>

text \<open>
  A Go \<open>string\<close> is a sequence of bytes; it is modelled as \<^typ>\<open>string\<close> (a list of
  8-bit characters). An \<open>error\<close> value is represented by the text its \<open>Error()\<close> method
  returns, and a function returning \<open>(T, error)\<close> by a value of type \<open>error + T\<close>.
\<close>

type_synonym error = string

text \<open>
  \<open>fmt.Sprintf\<close> on the fragment the program uses: format strings whose only directives
  are \<open>%s\<close> (and the escape \<open>%%\<close>), with string operands. A \<open>%s\<close> is replaced by the
  next operand, byte for byte; a \<open>%s\<close> without operand prints \<open>%!s(MISSING)\<close>, a
  \<open>%\<close> that ends the format prints \<open>%!(NOVERB)\<close>, and operands left over are reported
  as \<open>%!(EXTRA string=...)\<close>. Other verbs, flags and widths are not part of the fragment.
\<close>

fun extraOperands :: "string list \<Rightarrow> string" where
  "extraOperands [] = []"
| "extraOperands [a] = ''string='' @ a"
| "extraOperands (a # as) = ''string='' @ a @ '', '' @ extraOperands as"

fun Sprintf :: "string \<Rightarrow> string list \<Rightarrow> string" where
  "Sprintf [] as = (if as = [] then [] else ''%!(EXTRA '' @ extraOperands as @ '')'')"
| "Sprintf [c] as =
     (if c = CHR ''%'' then ''%!(NOVERB)'' @ Sprintf [] as else c # Sprintf [] as)"
| "Sprintf (c # v # fs) as =
     (if c = CHR ''%'' \<and> v = CHR ''s'' then
        (case as of
           a # as' \<Rightarrow> a @ Sprintf fs as'
         | [] \<Rightarrow> ''%!s(MISSING)'' @ Sprintf fs [])
      else if c = CHR ''%'' \<and> v = CHR ''%'' then CHR ''%'' # Sprintf fs as
      else c # Sprintf (v # fs) as)"

text \<open>
  The standard logger: \<open>log.Printf\<close> formats a line and appends it to the log. The
  timestamp prefix of the line is left out of the model.
\<close>

type_synonym logger = "string list"

definition Printf :: "string \<Rightarrow> string list \<Rightarrow> logger \<Rightarrow> logger" where
  "Printf format as lg = lg @ [Sprintf format as]"

text \<open>
  \<open>strings.ToLower\<close>. For a string of ASCII bytes only, Go maps \<open>A\<close>..\<open>Z\<close> to
  \<open>a\<close>..\<open>z\<close> and keeps every other byte. For any other string it returns
  \<open>strings.Map(unicode.ToLower, s)\<close>, which depends on the Unicode tables; that result is
  the parameter \<open>mapLower\<close>.
\<close>

definition isASCII :: "char \<Rightarrow> bool" where
  "isASCII c = ((of_char c :: nat) < 128)"

definition lowerASCII :: "char \<Rightarrow> char" where
  "lowerASCII c =
     (if (65::nat) \<le> of_char c \<and> (of_char c :: nat) \<le> 90 then char_of (of_char c + (32::nat)) else c)"

definition ToLower :: "(string \<Rightarrow> string) \<Rightarrow> string \<Rightarrow> string" where
  "ToLower mapLower s = (if list_all isASCII s then map lowerASCII s else mapLower s)"

section \<open>The tools (tools.go)\<close>

record SearchFlightsInput =
  Departure :: string
  Arrival :: string

record SuggestHotelInput =
  Destination :: string

text \<open>
  The function of the \<open>searchFlights\<close> tool: it logs the call and returns the mock
  answer, with a nil error.
\<close>

definition searchFlightsTool :: "SearchFlightsInput \<Rightarrow> logger \<Rightarrow> (error + string) \<times> logger" where
  "searchFlightsTool input lg =
     (let lg' = Printf ''Tool called: searchFlights from %s to %s''
                  [Departure input, Arrival input] lg
      in (Inr (Sprintf ''Found flights from %s to %s. A non-stop flight is available for $550.''
                 [Departure input, Arrival input]), lg'))"

text \<open>
  The function of the \<open>suggestHotel\<close> tool: it logs the call and switches on the
  lower-cased destination.
\<close>

definition suggestHotelTool ::
  "(string \<Rightarrow> string) \<Rightarrow> SuggestHotelInput \<Rightarrow> logger \<Rightarrow> (error + string) \<times> logger" where
  "suggestHotelTool mapLower input lg =
     (let lg' = Printf ''Tool called: suggestHotel in %s'' [Destination input] lg;
          d = ToLower mapLower (Destination input)
      in if d = ''london'' then
           (Inr ''The Savoy is a highly-rated luxury hotel with excellent reviews.'', lg')
         else if d = ''tokyo'' then
           (Inr ''The Park Hyatt is a great choice with stunning city views.'', lg')
         else
           (Inr (Sprintf ''I'm sorry, I don't have a specific hotel recommendation for %s.''
                   [Destination input]), lg'))"

text \<open>
  Case-insensitive comparison of two strings, as the specification uses the term: the
  strings are equal once both are lower-cased.
\<close>

definition equalIgnoreCase :: "(string \<Rightarrow> string) \<Rightarrow> string \<Rightarrow> string \<Rightarrow> bool" where
  "equalIgnoreCase mapLower a b = (ToLower mapLower a = ToLower mapLower b)"

section \<open>The JSON scanner of \<open>encoding/json\<close>\<close>

text \<open>
  The handler reads the request with \<open>json.NewDecoder(r.Body).Decode(&input)\<close>. The decoder
  belongs to Go's standard library; what follows is a model of it, as far as a value of type
  \<open>TravelAgentInput\<close> is decoded from a byte string. Its first part is the scanner
  (\<open>scanner.go\<close>): a state machine that is fed the input one byte at a time. The field
  \<open>step\<close> names the state function that handles the next byte, \<open>parseState\<close> is the stack of
  the objects and arrays that are open (its top is the head of the list), and \<open>err\<close> holds
  the syntax error, if any (\<open>nilError\<close> is Go's \<open>nil\<close>). A syntax error is kept as the
  offending byte and the context that its message names. Byte offsets, which only appear in
  the \<open>Offset\<close> fields of errors, are left out.
\<close>

datatype syntaxError = nilError | invalidCharacter char string | unexpectedEndOfInput

datatype scanOp =
  scanContinue | scanBeginLiteral | scanBeginObject | scanObjectKey | scanObjectValue
| scanEndObject | scanBeginArray | scanArrayValue | scanEndArray | scanSkipSpace
| scanEnd | scanError

datatype parseKind = parseObjectKey | parseObjectValue | parseArrayValue

datatype stepFn =
  StateBeginValueOrEmpty | StateBeginValue | StateBeginStringOrEmpty | StateBeginString
| StateEndValue | StateEndTop
| StateInString | StateInStringEsc | StateInStringEscU | StateInStringEscU1
| StateInStringEscU12 | StateInStringEscU123
| StateNeg | State1 | State0 | StateDot | StateDot0 | StateE | StateESign | StateE0
| StateT | StateTr | StateTru | StateF | StateFa | StateFal | StateFals
| StateN | StateNu | StateNul | StateError

record scanner =
  step :: stepFn
  endTop :: bool
  parseState :: "parseKind list"
  err :: syntaxError

definition maxNestingDepth :: nat where
  "maxNestingDepth = 10000"

definition reset :: scanner where
  "reset = \<lparr>step = StateBeginValue, endTop = False, parseState = [], err = nilError\<rparr>"

definition scannerError :: "scanner \<Rightarrow> char \<Rightarrow> string \<Rightarrow> scanner \<times> scanOp" where
  "scannerError s c context = (s\<lparr>step := StateError, err := invalidCharacter c context\<rparr>, scanError)"

definition pushParseState :: "scanner \<Rightarrow> char \<Rightarrow> parseKind \<Rightarrow> scanOp \<Rightarrow> scanner \<times> scanOp" where
  "pushParseState s c newParseState successState =
     (let s' = s\<lparr>parseState := newParseState # parseState s\<rparr>
      in if length (parseState s') \<le> maxNestingDepth then (s', successState)
         else scannerError s' c ''exceeded max depth'')"

definition popParseState :: "scanner \<Rightarrow> scanner" where
  "popParseState s =
     (let s' = s\<lparr>parseState := tl (parseState s)\<rparr>
      in if parseState s' = [] then s'\<lparr>step := StateEndTop, endTop := True\<rparr>
         else s'\<lparr>step := StateEndValue\<rparr>)"

definition isSpace :: "char \<Rightarrow> bool" where
  "isSpace c = (c = CHR '' '' \<or> c = CHR 0x09 \<or> c = CHR 0x0D \<or> c = CHR 0x0A)"

definition isDigit :: "char \<Rightarrow> bool" where
  "isDigit c = (CHR ''0'' \<le> c \<and> c \<le> CHR ''9'')"

definition isHexDigit :: "char \<Rightarrow> bool" where
  "isHexDigit c =
     (CHR ''0'' \<le> c \<and> c \<le> CHR ''9'' \<or> CHR ''a'' \<le> c \<and> c \<le> CHR ''f'' \<or>
      CHR ''A'' \<le> c \<and> c \<le> CHR ''F'')"

definition stateEndTop :: "scanner \<Rightarrow> char \<Rightarrow> scanner \<times> scanOp" where
  "stateEndTop s c =
     (if \<not> isSpace c then (fst (scannerError s c ''after top-level value''), scanEnd)
      else (s, scanEnd))"

definition stateEndValue :: "scanner \<Rightarrow> char \<Rightarrow> scanner \<times> scanOp" where
  "stateEndValue s c =
     (case parseState s of
        [] \<Rightarrow> stateEndTop (s\<lparr>step := StateEndTop, endTop := True\<rparr>) c
      | ps # _ \<Rightarrow>
          if isSpace c then (s\<lparr>step := StateEndValue\<rparr>, scanSkipSpace)
          else (case ps of
              parseObjectKey \<Rightarrow>
                if c = CHR '':'' then
                  (s\<lparr>parseState := (parseState s)[0 := parseObjectValue],
                     step := StateBeginValue\<rparr>, scanObjectKey)
                else scannerError s c ''after object key''
            | parseObjectValue \<Rightarrow>
                if c = CHR '','' then
                  (s\<lparr>parseState := (parseState s)[0 := parseObjectKey],
                     step := StateBeginString\<rparr>, scanObjectValue)
                else if c = CHR ''}'' then (popParseState s, scanEndObject)
                else scannerError s c ''after object key:value pair''
            | parseArrayValue \<Rightarrow>
                if c = CHR '','' then (s\<lparr>step := StateBeginValue\<rparr>, scanArrayValue)
                else if c = CHR '']'' then (popParseState s, scanEndArray)
                else scannerError s c ''after array element''))"

definition stateBeginValue :: "scanner \<Rightarrow> char \<Rightarrow> scanner \<times> scanOp" where
  "stateBeginValue s c =
     (if isSpace c then (s, scanSkipSpace)
      else if c = CHR ''{'' then
        pushParseState (s\<lparr>step := StateBeginStringOrEmpty\<rparr>) c parseObjectKey scanBeginObject
      else if c = CHR ''['' then
        pushParseState (s\<lparr>step := StateBeginValueOrEmpty\<rparr>) c parseArrayValue scanBeginArray
      else if c = CHR 0x22 then (s\<lparr>step := StateInString\<rparr>, scanBeginLiteral)
      else if c = CHR ''-'' then (s\<lparr>step := StateNeg\<rparr>, scanBeginLiteral)
      else if c = CHR ''0'' then (s\<lparr>step := State0\<rparr>, scanBeginLiteral)
      else if c = CHR ''t'' then (s\<lparr>step := StateT\<rparr>, scanBeginLiteral)
      else if c = CHR ''f'' then (s\<lparr>step := StateF\<rparr>, scanBeginLiteral)
      else if c = CHR ''n'' then (s\<lparr>step := StateN\<rparr>, scanBeginLiteral)
      else if CHR ''1'' \<le> c \<and> c \<le> CHR ''9'' then (s\<lparr>step := State1\<rparr>, scanBeginLiteral)
      else scannerError s c ''looking for beginning of value'')"

definition stateBeginValueOrEmpty :: "scanner \<Rightarrow> char \<Rightarrow> scanner \<times> scanOp" where
  "stateBeginValueOrEmpty s c =
     (if isSpace c then (s, scanSkipSpace)
      else if c = CHR '']'' then stateEndValue s c
      else stateBeginValue s c)"

definition stateBeginString :: "scanner \<Rightarrow> char \<Rightarrow> scanner \<times> scanOp" where
  "stateBeginString s c =
     (if isSpace c then (s, scanSkipSpace)
      else if c = CHR 0x22 then (s\<lparr>step := StateInString\<rparr>, scanBeginLiteral)
      else scannerError s c ''looking for beginning of object key string'')"

definition stateBeginStringOrEmpty :: "scanner \<Rightarrow> char \<Rightarrow> scanner \<times> scanOp" where
  "stateBeginStringOrEmpty s c =
     (if isSpace c then (s, scanSkipSpace)
      else if c = CHR ''}'' then
        stateEndValue (s\<lparr>parseState := (parseState s)[0 := parseObjectValue]\<rparr>) c
      else stateBeginString s c)"

definition stateInString :: "scanner \<Rightarrow> char \<Rightarrow> scanner \<times> scanOp" where
  "stateInString s c =
     (if c = CHR 0x22 then (s\<lparr>step := StateEndValue\<rparr>, scanContinue)
      else if c = CHR 0x5C then (s\<lparr>step := StateInStringEsc\<rparr>, scanContinue)
      else if c < CHR 0x20 then scannerError s c ''in string literal''
      else (s, scanContinue))"

definition stateInStringEsc :: "scanner \<Rightarrow> char \<Rightarrow> scanner \<times> scanOp" where
  "stateInStringEsc s c =
     (if c = CHR ''b'' \<or> c = CHR ''f'' \<or> c = CHR ''n'' \<or> c = CHR ''r'' \<or> c = CHR ''t'' \<or>
         c = CHR 0x5C \<or> c = CHR ''/'' \<or> c = CHR 0x22
      then (s\<lparr>step := StateInString\<rparr>, scanContinue)
      else if c = CHR ''u'' then (s\<lparr>step := StateInStringEscU\<rparr>, scanContinue)
      else scannerError s c ''in string escape code'')"

definition stateInStringEscU :: "scanner \<Rightarrow> char \<Rightarrow> scanner \<times> scanOp" where
  "stateInStringEscU s c =
     (if isHexDigit c then (s\<lparr>step := StateInStringEscU1\<rparr>, scanContinue)
      else scannerError s c (''in '' @ [CHR 0x5C] @ ''u hexadecimal character escape''))"

definition stateInStringEscU1 :: "scanner \<Rightarrow> char \<Rightarrow> scanner \<times> scanOp" where
  "stateInStringEscU1 s c =
     (if isHexDigit c then (s\<lparr>step := StateInStringEscU12\<rparr>, scanContinue)
      else scannerError s c (''in '' @ [CHR 0x5C] @ ''u hexadecimal character escape''))"

definition stateInStringEscU12 :: "scanner \<Rightarrow> char \<Rightarrow> scanner \<times> scanOp" where
  "stateInStringEscU12 s c =
     (if isHexDigit c then (s\<lparr>step := StateInStringEscU123\<rparr>, scanContinue)
      else scannerError s c (''in '' @ [CHR 0x5C] @ ''u hexadecimal character escape''))"

definition stateInStringEscU123 :: "scanner \<Rightarrow> char \<Rightarrow> scanner \<times> scanOp" where
  "stateInStringEscU123 s c =
     (if isHexDigit c then (s\<lparr>step := StateInString\<rparr>, scanContinue)
      else scannerError s c (''in '' @ [CHR 0x5C] @ ''u hexadecimal character escape''))"

definition stateNeg :: "scanner \<Rightarrow> char \<Rightarrow> scanner \<times> scanOp" where
  "stateNeg s c =
     (if c = CHR ''0'' then (s\<lparr>step := State0\<rparr>, scanContinue)
      else if CHR ''1'' \<le> c \<and> c \<le> CHR ''9'' then (s\<lparr>step := State1\<rparr>, scanContinue)
      else scannerError s c ''in numeric literal'')"

definition state0 :: "scanner \<Rightarrow> char \<Rightarrow> scanner \<times> scanOp" where
  "state0 s c =
     (if c = CHR ''.'' then (s\<lparr>step := StateDot\<rparr>, scanContinue)
      else if c = CHR ''e'' \<or> c = CHR ''E'' then (s\<lparr>step := StateE\<rparr>, scanContinue)
      else stateEndValue s c)"

definition state1 :: "scanner \<Rightarrow> char \<Rightarrow> scanner \<times> scanOp" where
  "state1 s c =
     (if isDigit c then (s\<lparr>step := State1\<rparr>, scanContinue)
      else state0 s c)"

definition stateDot :: "scanner \<Rightarrow> char \<Rightarrow> scanner \<times> scanOp" where
  "stateDot s c =
     (if isDigit c then (s\<lparr>step := StateDot0\<rparr>, scanContinue)
      else scannerError s c ''after decimal point in numeric literal'')"

definition stateDot0 :: "scanner \<Rightarrow> char \<Rightarrow> scanner \<times> scanOp" where
  "stateDot0 s c =
     (if isDigit c then (s, scanContinue)
      else if c = CHR ''e'' \<or> c = CHR ''E'' then (s\<lparr>step := StateE\<rparr>, scanContinue)
      else stateEndValue s c)"

definition stateESign :: "scanner \<Rightarrow> char \<Rightarrow> scanner \<times> scanOp" where
  "stateESign s c =
     (if isDigit c then (s\<lparr>step := StateE0\<rparr>, scanContinue)
      else scannerError s c ''in exponent of numeric literal'')"

definition stateE :: "scanner \<Rightarrow> char \<Rightarrow> scanner \<times> scanOp" where
  "stateE s c =
     (if c = CHR ''+'' \<or> c = CHR ''-'' then (s\<lparr>step := StateESign\<rparr>, scanContinue)
      else stateESign s c)"

definition stateE0 :: "scanner \<Rightarrow> char \<Rightarrow> scanner \<times> scanOp" where
  "stateE0 s c =
     (if isDigit c then (s, scanContinue)
      else stateEndValue s c)"

text \<open>
  The states inside the literals \<open>true\<close>, \<open>false\<close> and \<open>null\<close> all have one shape: the
  expected byte leads to the next state, any other byte is an error.
\<close>

definition expect :: "scanner \<Rightarrow> char \<Rightarrow> char \<Rightarrow> stepFn \<Rightarrow> string \<Rightarrow> scanner \<times> scanOp" where
  "expect s c wanted next context =
     (if c = wanted then (s\<lparr>step := next\<rparr>, scanContinue)
      else scannerError s c context)"

definition stateT :: "scanner \<Rightarrow> char \<Rightarrow> scanner \<times> scanOp" where
  "stateT s c = expect s c CHR ''r'' StateTr ''in literal true (expecting 'r')''"

definition stateTr :: "scanner \<Rightarrow> char \<Rightarrow> scanner \<times> scanOp" where
  "stateTr s c = expect s c CHR ''u'' StateTru ''in literal true (expecting 'u')''"

definition stateTru :: "scanner \<Rightarrow> char \<Rightarrow> scanner \<times> scanOp" where
  "stateTru s c = expect s c CHR ''e'' StateEndValue ''in literal true (expecting 'e')''"

definition stateF :: "scanner \<Rightarrow> char \<Rightarrow> scanner \<times> scanOp" where
  "stateF s c = expect s c CHR ''a'' StateFa ''in literal false (expecting 'a')''"

definition stateFa :: "scanner \<Rightarrow> char \<Rightarrow> scanner \<times> scanOp" where
  "stateFa s c = expect s c CHR ''l'' StateFal ''in literal false (expecting 'l')''"

definition stateFal :: "scanner \<Rightarrow> char \<Rightarrow> scanner \<times> scanOp" where
  "stateFal s c = expect s c CHR ''s'' StateFals ''in literal false (expecting 's')''"

definition stateFals :: "scanner \<Rightarrow> char \<Rightarrow> scanner \<times> scanOp" where
  "stateFals s c = expect s c CHR ''e'' StateEndValue ''in literal false (expecting 'e')''"

definition stateN :: "scanner \<Rightarrow> char \<Rightarrow> scanner \<times> scanOp" where
  "stateN s c = expect s c CHR ''u'' StateNu ''in literal null (expecting 'u')''"

definition stateNu :: "scanner \<Rightarrow> char \<Rightarrow> scanner \<times> scanOp" where
  "stateNu s c = expect s c CHR ''l'' StateNul ''in literal null (expecting 'l')''"

definition stateNul :: "scanner \<Rightarrow> char \<Rightarrow> scanner \<times> scanOp" where
  "stateNul s c = expect s c CHR ''l'' StateEndValue ''in literal null (expecting 'l')''"

definition stateError :: "scanner \<Rightarrow> char \<Rightarrow> scanner \<times> scanOp" where
  "stateError s c = (s, scanError)"

text \<open>The call \<open>s.step(s, c)\<close>: the state function that \<open>step\<close> names handles the byte.\<close>

definition scanStep :: "scanner \<Rightarrow> char \<Rightarrow> scanner \<times> scanOp" where
  "scanStep s c =
     (case step s of
        StateBeginValueOrEmpty \<Rightarrow> stateBeginValueOrEmpty s c
      | StateBeginValue \<Rightarrow> stateBeginValue s c
      | StateBeginStringOrEmpty \<Rightarrow> stateBeginStringOrEmpty s c
      | StateBeginString \<Rightarrow> stateBeginString s c
      | StateEndValue \<Rightarrow> stateEndValue s c
      | StateEndTop \<Rightarrow> stateEndTop s c
      | StateInString \<Rightarrow> stateInString s c
      | StateInStringEsc \<Rightarrow> stateInStringEsc s c
      | StateInStringEscU \<Rightarrow> stateInStringEscU s c
      | StateInStringEscU1 \<Rightarrow> stateInStringEscU1 s c
      | StateInStringEscU12 \<Rightarrow> stateInStringEscU12 s c
      | StateInStringEscU123 \<Rightarrow> stateInStringEscU123 s c
      | StateNeg \<Rightarrow> stateNeg s c
      | State1 \<Rightarrow> state1 s c
      | State0 \<Rightarrow> state0 s c
      | StateDot \<Rightarrow> stateDot s c
      | StateDot0 \<Rightarrow> stateDot0 s c
      | StateE \<Rightarrow> stateE s c
      | StateESign \<Rightarrow> stateESign s c
      | StateE0 \<Rightarrow> stateE0 s c
      | StateT \<Rightarrow> stateT s c
      | StateTr \<Rightarrow> stateTr s c
      | StateTru \<Rightarrow> stateTru s c
      | StateF \<Rightarrow> stateF s c
      | StateFa \<Rightarrow> stateFa s c
      | StateFal \<Rightarrow> stateFal s c
      | StateFals \<Rightarrow> stateFals s c
      | StateN \<Rightarrow> stateN s c
      | StateNu \<Rightarrow> stateNu s c
      | StateNul \<Rightarrow> stateNul s c
      | StateError \<Rightarrow> stateError s c)"

text \<open>
  \<open>eof\<close> tells the scanner that the input has ended: the value in progress is complete if
  a space would end it.
\<close>

definition eof :: "scanner \<Rightarrow> scanner \<times> scanOp" where
  "eof s =
     (if err s \<noteq> nilError then (s, scanError)
      else if endTop s then (s, scanEnd)
      else (let s' = fst (scanStep s CHR '' '')
            in if endTop s' then (s', scanEnd)
               else if err s' = nilError then (s'\<lparr>err := unexpectedEndOfInput\<rparr>, scanError)
               else (s', scanError)))"

section \<open>Reading the first value (\<open>stream.go\<close>)\<close>

text \<open>
  The errors \<open>Decode\<close> can return. \<open>UnmarshalTypeError v dest\<close> says that a JSON value of
  kind \<open>v\<close> (\<open>array\<close>, \<open>object\<close>, \<open>string\<close>, \<open>number\<close>, \<open>bool\<close>) does not fit the Go value it
  is decoded into. Where the library panics (\<open>JSON decoder out of sync\<close>, or a slice index
  out of range), the model yields \<open>Panic\<close>.
\<close>

datatype dest = DestStruct | DestField | DestNone

datatype DecodeError =
  EOF | ErrUnexpectedEOF | SyntaxError syntaxError | UnmarshalTypeError string dest | Panic

text \<open>
  \<open>Decoder.readValue\<close> feeds the buffered input to the scanner until the first value has
  ended. The request body is read to its end, so the buffer is the whole body; the loop
  below is the scan of the buffer, \<open>scanp\<close> counting the bytes that belong to the value.
  After the closing bracket of a top-level object or array the value has ended, and no
  further byte is looked at.
\<close>

datatype scanResult = Found nat | Failed syntaxError | More scanner

fun scanBuffer :: "scanner \<Rightarrow> nat \<Rightarrow> string \<Rightarrow> scanResult" where
  "scanBuffer s scanp [] = More s"
| "scanBuffer s scanp (c # cs) =
     (case scanStep s c of (s', op) \<Rightarrow>
        if op = scanEnd then Found scanp
        else if op = scanEndObject \<or> op = scanEndArray then
          (case stateEndValue s' CHR '' '' of (s'', op') \<Rightarrow>
             if op' = scanEnd then Found (scanp + 1) else scanBuffer s'' (scanp + 1) cs)
        else if op = scanError then Failed (err s')
        else scanBuffer s' (scanp + 1) cs)"

definition nonSpace :: "string \<Rightarrow> bool" where
  "nonSpace b = list_ex (\<lambda>c. \<not> isSpace c) b"

text \<open>
  When the input ends before the scanner has seen the end of the value, a space is fed to
  it: a top-level number or literal ends there. Otherwise the error is \<open>io.EOF\<close> for an
  input of spaces only, and \<open>io.ErrUnexpectedEOF\<close> for a value cut short.
\<close>

definition readValue :: "string \<Rightarrow> DecodeError + nat" where
  "readValue buf =
     (case scanBuffer reset 0 buf of
        Found n \<Rightarrow> Inr n
      | Failed e \<Rightarrow> Inl (SyntaxError e)
      | More s \<Rightarrow>
          if snd (scanStep s CHR '' '') = scanEnd then Inr (length buf)
          else if nonSpace buf then Inl ErrUnexpectedEOF
          else Inl EOF)"

section \<open>UTF-8 and string literals\<close>

text \<open>
  Runes are natural numbers. \<open>DecodeRune\<close> (\<open>unicode/utf8\<close>) returns the first rune of a
  byte string and its width in bytes; a byte that starts no well-formed encoding gives
  \<open>(RuneError, 1)\<close>, and so does an encoding that is cut short or has a byte outside its
  range. The ranges are those of Go's tables \<open>first\<close> and \<open>acceptRanges\<close>.
\<close>

definition RuneError :: nat where
  "RuneError = 0xFFFD"

definition byte :: "char \<Rightarrow> nat" where
  "byte c = of_char c"

definition inRange :: "nat \<Rightarrow> nat \<Rightarrow> nat \<Rightarrow> bool" where
  "inRange lo hi b = (lo \<le> b \<and> b \<le> hi)"

text \<open>The width a leading byte announces, and the range its second byte must lie in.\<close>

definition leading :: "nat \<Rightarrow> (nat \<times> nat \<times> nat) option" where
  "leading p0 =
     (if inRange 0xC2 0xDF p0 then Some (2, 0x80, 0xBF)
      else if p0 = 0xE0 then Some (3, 0xA0, 0xBF)
      else if inRange 0xE1 0xEC p0 then Some (3, 0x80, 0xBF)
      else if p0 = 0xED then Some (3, 0x80, 0x9F)
      else if inRange 0xEE 0xEF p0 then Some (3, 0x80, 0xBF)
      else if p0 = 0xF0 then Some (4, 0x90, 0xBF)
      else if inRange 0xF1 0xF3 p0 then Some (4, 0x80, 0xBF)
      else if p0 = 0xF4 then Some (4, 0x80, 0x8F)
      else None)"

definition DecodeRune :: "string \<Rightarrow> nat \<times> nat" where
  "DecodeRune p =
     (case p of
        [] \<Rightarrow> (RuneError, 0)
      | c0 # p1 \<Rightarrow>
          let p0 = byte c0 in
          if p0 < 0x80 then (p0, 1)
          else (case leading p0 of
              None \<Rightarrow> (RuneError, 1)
            | Some (sz, lo, hi) \<Rightarrow>
                (case p1 of
                   [] \<Rightarrow> (RuneError, 1)
                 | c1 # p2 \<Rightarrow>
                     let b1 = byte c1 in
                     if \<not> inRange lo hi b1 then (RuneError, 1)
                     else if sz \<le> 2 then (p0 mod 32 * 64 + b1 mod 64, 2)
                     else (case p2 of
                         [] \<Rightarrow> (RuneError, 1)
                       | c2 # p3 \<Rightarrow>
                           let b2 = byte c2 in
                           if \<not> inRange 0x80 0xBF b2 then (RuneError, 1)
                           else if sz \<le> 3 then
                             (p0 mod 16 * 4096 + b1 mod 64 * 64 + b2 mod 64, 3)
                           else (case p3 of
                               [] \<Rightarrow> (RuneError, 1)
                             | c3 # _ \<Rightarrow>
                                 let b3 = byte c3 in
                                 if \<not> inRange 0x80 0xBF b3 then (RuneError, 1)
                                 else (p0 mod 8 * 262144 + b1 mod 64 * 4096 +
                                       b2 mod 64 * 64 + b3 mod 64, 4))))))"

text \<open>\<open>AppendRune\<close>/\<open>EncodeRune\<close>: the UTF-8 encoding of a rune; a surrogate or a value
  beyond \<open>U+10FFFF\<close> is encoded as \<open>RuneError\<close>.\<close>

definition encode3 :: "nat \<Rightarrow> string" where
  "encode3 r =
     [char_of (0xE0 + r div 4096), char_of (0x80 + r div 64 mod 64), char_of (0x80 + r mod 64)]"

definition EncodeRune :: "nat \<Rightarrow> string" where
  "EncodeRune r =
     (if r \<le> 0x7F then [char_of r]
      else if r \<le> 0x7FF then [char_of (0xC0 + r div 64), char_of (0x80 + r mod 64)]
      else if r > 0x10FFFF \<or> inRange 0xD800 0xDFFF r then encode3 RuneError
      else if r \<le> 0xFFFF then encode3 r
      else [char_of (0xF0 + r div 262144), char_of (0x80 + r div 4096 mod 64),
            char_of (0x80 + r div 64 mod 64), char_of (0x80 + r mod 64)])"

text \<open>
  \<open>getu4\<close> reads the four hexadecimal digits of an escape \<open>\uXXXX\<close>; \<open>None\<close> stands for
  Go's result \<open>-1\<close>.
\<close>

definition hexValue :: "char \<Rightarrow> nat option" where
  "hexValue c =
     (if CHR ''0'' \<le> c \<and> c \<le> CHR ''9'' then Some (byte c - byte CHR ''0'')
      else if CHR ''a'' \<le> c \<and> c \<le> CHR ''f'' then Some (byte c - byte CHR ''a'' + 10)
      else if CHR ''A'' \<le> c \<and> c \<le> CHR ''F'' then Some (byte c - byte CHR ''A'' + 10)
      else None)"

fun hexDigits :: "nat \<Rightarrow> string \<Rightarrow> nat option" where
  "hexDigits r [] = Some r"
| "hexDigits r (c # cs) =
     (case hexValue c of None \<Rightarrow> None | Some v \<Rightarrow> hexDigits (r * 16 + v) cs)"

definition getu4 :: "string \<Rightarrow> nat option" where
  "getu4 s =
     (if length s < 6 \<or> s ! 0 \<noteq> CHR 0x5C \<or> s ! 1 \<noteq> CHR ''u'' then None
      else hexDigits 0 (take 4 (drop 2 s)))"

text \<open>\<open>utf16.DecodeRune\<close> on the two halves of a surrogate pair; the second half may be
  missing.\<close>

definition utf16DecodeRune :: "nat \<Rightarrow> nat option \<Rightarrow> nat" where
  "utf16DecodeRune r1 r2 =
     (case r2 of
        None \<Rightarrow> RuneError
      | Some r2' \<Rightarrow>
          if 0xD800 \<le> r1 \<and> r1 < 0xDC00 \<and> 0xDC00 \<le> r2' \<and> r2' < 0xE000
          then (r1 - 0xD800) * 1024 + (r2' - 0xDC00) + 0x10000
          else RuneError)"

text \<open>
  \<open>unquoteBytes\<close> turns a quoted JSON string literal into the string it denotes. The first
  loop finds the prefix that needs no work (no escape, no control character, no malformed
  UTF-8); the second loop resolves the escapes of the rest and replaces every malformed
  byte with the encoding of \<open>RuneError\<close>. \<open>None\<close> stands for the result \<open>ok = false\<close>.
\<close>

fun plainPrefix :: "string \<Rightarrow> nat" where
  "plainPrefix [] = 0"
| "plainPrefix (c # cs) =
     (if c = CHR 0x5C \<or> c = CHR 0x22 \<or> c < CHR '' '' then 0
      else if byte c < 0x80 then 1 + plainPrefix cs
      else (case DecodeRune (c # cs) of (rr, n) \<Rightarrow>
          if rr = RuneError \<and> n = 1 then 0
          else n + plainPrefix (drop (n - 1) cs)))"

definition simpleEscape :: "char \<Rightarrow> char option" where
  "simpleEscape e =
     (if e = CHR 0x22 \<or> e = CHR 0x5C \<or> e = CHR ''/'' \<or> e = CHR 0x27 then Some e
      else if e = CHR ''b'' then Some (CHR 0x08)
      else if e = CHR ''f'' then Some (CHR 0x0C)
      else if e = CHR ''n'' then Some (CHR 0x0A)
      else if e = CHR ''r'' then Some (CHR 0x0D)
      else if e = CHR ''t'' then Some (CHR 0x09)
      else None)"

fun unquoteRest :: "string \<Rightarrow> string option" where
  "unquoteRest [] = Some []"
| "unquoteRest (c # cs) =
     (if c = CHR 0x5C then
        (case cs of
           [] \<Rightarrow> None
         | e # cs' \<Rightarrow>
             if e = CHR ''u'' then
               (case getu4 (c # cs) of
                  None \<Rightarrow> None
                | Some rr \<Rightarrow>
                    if inRange 0xD800 0xDFFF rr then
                      (let dec = utf16DecodeRune rr (getu4 (drop 5 cs))
                       in if dec \<noteq> RuneError
                          then map_option ((@) (EncodeRune dec)) (unquoteRest (drop 11 cs))
                          else map_option ((@) (EncodeRune RuneError)) (unquoteRest (drop 5 cs)))
                    else map_option ((@) (EncodeRune rr)) (unquoteRest (drop 5 cs)))
             else (case simpleEscape e of
                  None \<Rightarrow> None
                | Some x \<Rightarrow> map_option ((#) x) (unquoteRest cs')))
      else if c = CHR 0x22 \<or> c < CHR '' '' then None
      else if byte c < 0x80 then map_option ((#) c) (unquoteRest cs)
      else (case DecodeRune (c # cs) of (rr, n) \<Rightarrow>
          map_option ((@) (EncodeRune rr)) (unquoteRest (drop (n - 1) cs))))"

definition unquoteBytes :: "string \<Rightarrow> string option" where
  "unquoteBytes s =
     (if length s < 2 \<or> hd s \<noteq> CHR 0x22 \<or> last s \<noteq> CHR 0x22 then None
      else let s' = butlast (tl s); r = plainPrefix s'
           in if r = length s' then Some s'
              else map_option ((@) (take r s')) (unquoteRest (drop r s')))"

text \<open>
  \<open>foldName\<close> (\<open>fold.go\<close>) maps a key to the form under which field names are compared
  without regard to case: ASCII letters become upper case, any other rune is replaced by
  the smallest rune of its case-folding orbit. That rune comes from the Unicode tables
  (\<open>unicode.SimpleFold\<close>); it is the parameter \<open>foldRune\<close>.
\<close>

fun foldName :: "(nat \<Rightarrow> nat) \<Rightarrow> string \<Rightarrow> string" where
  "foldName foldRune [] = []"
| "foldName foldRune (c # cs) =
     (if byte c < 0x80 then
        (if CHR ''a'' \<le> c \<and> c \<le> CHR ''z'' then char_of (byte c - 32) else c) #
        foldName foldRune cs
      else (case DecodeRune (c # cs) of (r, n) \<Rightarrow>
          EncodeRune (foldRune r) @ foldName foldRune (drop (n - 1) cs)))"

section \<open>Decoding into \<open>TravelAgentInput\<close> (\<open>decode.go\<close>)\<close>

text \<open>The input of the travel agent flow (main.go).\<close>

record TravelAgentInput =
  UserQuery :: string

text \<open>
  \<open>decodeState\<close> walks through the bytes of the value that \<open>readValue\<close> has delimited.
  Go keeps the bytes and an offset \<open>off\<close>; the model keeps \<open>data\<close>, the bytes from \<open>off\<close>
  on, and \<open>cur\<close>, the byte before \<open>off\<close> (the one read last, at \<open>readIndex()\<close>). \<open>target\<close> is
  the struct the pointer \<open>v\<close> points to. The destination of a value is the struct itself
  (\<open>DestStruct\<close>), its field \<open>UserQuery\<close> of kind string (\<open>DestField\<close>), or nothing, for a key
  that matches no field (\<open>DestNone\<close>, an invalid \<open>reflect.Value\<close>). A result \<open>None\<close> of the
  functions below is a panic.
\<close>

record decodeState =
  data :: string
  cur :: char
  opcode :: scanOp
  scan :: scanner
  savedError :: "DecodeError option"
  target :: TravelAgentInput

definition init :: "string \<Rightarrow> TravelAgentInput \<Rightarrow> decodeState" where
  "init bytes v =
     \<lparr>data = bytes, cur = CHR 0x00, opcode = scanContinue, scan = reset, savedError = None,
      target = v\<rparr>"

definition saveError :: "DecodeError \<Rightarrow> decodeState \<Rightarrow> decodeState" where
  "saveError e d = (if savedError d = None then d\<lparr>savedError := Some e\<rparr> else d)"

text \<open>\<open>scanWhile\<close> reads bytes as long as the scanner answers \<open>op\<close>.\<close>

fun scanWhileFrom :: "scanOp \<Rightarrow> decodeState \<Rightarrow> string \<Rightarrow> decodeState" where
  "scanWhileFrom op d [] =
     (case eof (scan d) of (s', op') \<Rightarrow> d\<lparr>data := [], opcode := op', scan := s'\<rparr>)"
| "scanWhileFrom op d (c # cs) =
     (case scanStep (scan d) c of (s', newOp) \<Rightarrow>
        if newOp \<noteq> op then d\<lparr>data := cs, cur := c, opcode := newOp, scan := s'\<rparr>
        else scanWhileFrom op (d\<lparr>scan := s'\<rparr>) cs)"

definition scanWhile :: "scanOp \<Rightarrow> decodeState \<Rightarrow> decodeState" where
  "scanWhile op d = scanWhileFrom op d (data d)"

definition scanNext :: "decodeState \<Rightarrow> decodeState" where
  "scanNext d =
     (case data d of
        [] \<Rightarrow> (case eof (scan d) of (s', op') \<Rightarrow> d\<lparr>opcode := op', scan := s'\<rparr>)
      | c # cs \<Rightarrow>
          (case scanStep (scan d) c of (s', op') \<Rightarrow>
             d\<lparr>data := cs, cur := c, opcode := op', scan := s'\<rparr>))"

text \<open>
  \<open>skip\<close> reads to the end of the array or object that has just been opened: until the
  stack of the scanner is shorter than it was. Reading beyond the data is an index out of
  range.
\<close>

fun skipFrom :: "nat \<Rightarrow> decodeState \<Rightarrow> string \<Rightarrow> decodeState option" where
  "skipFrom depth d [] = None"
| "skipFrom depth d (c # cs) =
     (case scanStep (scan d) c of (s', op) \<Rightarrow>
        if length (parseState s') < depth
        then Some (d\<lparr>data := cs, cur := c, opcode := op, scan := s'\<rparr>)
        else skipFrom depth (d\<lparr>scan := s'\<rparr>) cs)"

definition skip :: "decodeState \<Rightarrow> decodeState option" where
  "skip d = skipFrom (length (parseState (scan d))) d (data d)"

text \<open>
  \<open>rescanLiteral\<close> finds the end of the literal whose first byte is \<open>cur\<close> without running
  the scanner, and then hands the byte after the literal to \<open>stateEndValue\<close>. The result is
  the literal (\<open>data[start:readIndex()]\<close> in Go) and the new state. \<open>stringEnd\<close> is the loop
  over a string literal: a backslash skips the byte after it, a quote ends the literal.
\<close>

fun stringEnd :: "string \<Rightarrow> (string \<times> string) option" where
  "stringEnd [] = Some ([], [])"
| "stringEnd (c # cs) =
     (if c = CHR 0x5C then
        (case cs of
           [] \<Rightarrow> None
         | e # cs' \<Rightarrow> map_option (\<lambda>(lit, rest). (c # e # lit, rest)) (stringEnd cs'))
      else if c = CHR 0x22 then Some ([c], cs)
      else map_option (\<lambda>(lit, rest). (c # lit, rest)) (stringEnd cs))"

definition isNumberByte :: "char \<Rightarrow> bool" where
  "isNumberByte c =
     (isDigit c \<or> c = CHR ''.'' \<or> c = CHR ''e'' \<or> c = CHR ''E'' \<or> c = CHR ''+'' \<or> c = CHR ''-'')"

definition fixedEnd :: "nat \<Rightarrow> string \<Rightarrow> (string \<times> string) option" where
  "fixedEnd k rest = (if length rest < k then None else Some (take k rest, drop k rest))"

definition literalEnd :: "char \<Rightarrow> string \<Rightarrow> (string \<times> string) option" where
  "literalEnd c0 rest =
     (if c0 = CHR 0x22 then stringEnd rest
      else if isDigit c0 \<or> c0 = CHR ''-'' then
        Some (takeWhile isNumberByte rest, dropWhile isNumberByte rest)
      else if c0 = CHR ''t'' then fixedEnd 3 rest
      else if c0 = CHR ''f'' then fixedEnd 4 rest
      else if c0 = CHR ''n'' then fixedEnd 3 rest
      else Some ([], rest))"

definition rescanLiteral :: "decodeState \<Rightarrow> (string \<times> decodeState) option" where
  "rescanLiteral d =
     (case literalEnd (cur d) (data d) of
        None \<Rightarrow> None
      | Some (lit, rest) \<Rightarrow>
          Some (cur d # lit,
            (case rest of
               [] \<Rightarrow> d\<lparr>data := [], opcode := scanEnd\<rparr>
             | c # cs \<Rightarrow>
                 (case stateEndValue (scan d) c of (s', op) \<Rightarrow>
                    d\<lparr>data := cs, cur := c, opcode := op, scan := s'\<rparr>))))"

text \<open>
  \<open>literalStore\<close> for a destination that is the struct or its string field: \<open>null\<close> leaves
  the destination as it is, a string literal is stored in a string and is a type error
  for the struct, \<open>true\<close>, \<open>false\<close> and numbers are type errors.
\<close>

definition literalStore :: "string \<Rightarrow> dest \<Rightarrow> decodeState \<Rightarrow> decodeState option" where
  "literalStore item v d =
     (case item of
        [] \<Rightarrow> None
      | c # _ \<Rightarrow>
          if c = CHR ''n'' then Some d
          else if c = CHR ''t'' \<or> c = CHR ''f'' then
            Some (saveError (UnmarshalTypeError ''bool'' v) d)
          else if c = CHR 0x22 then
            (case unquoteBytes item of
               None \<Rightarrow> None
             | Some s \<Rightarrow>
                 if v = DestField then Some (d\<lparr>target := (target d)\<lparr>UserQuery := s\<rparr>\<rparr>)
                 else Some (saveError (UnmarshalTypeError ''string'' v) d))
          else if c \<noteq> CHR ''-'' \<and> (c < CHR ''0'' \<or> c > CHR ''9'') then None
          else Some (saveError (UnmarshalTypeError ''number'' v) d))"

text \<open>
  \<open>d.value(subv)\<close> for the value of an object member: \<open>subv\<close> is the string field or
  nothing. An array or an object cannot be stored in a string: the error is saved and the
  value skipped. A value without destination is skipped.
\<close>

definition memberValue :: "dest \<Rightarrow> decodeState \<Rightarrow> decodeState option" where
  "memberValue v d =
     (if opcode d = scanBeginArray then
        map_option scanNext
          (skip (if v \<noteq> DestNone then saveError (UnmarshalTypeError ''array'' v) d else d))
      else if opcode d = scanBeginObject then
        map_option scanNext
          (skip (if v \<noteq> DestNone then saveError (UnmarshalTypeError ''object'' v) d else d))
      else if opcode d = scanBeginLiteral then
        (case rescanLiteral d of
           None \<Rightarrow> None
         | Some (item, d') \<Rightarrow> if v \<noteq> DestNone then literalStore item v d' else Some d')
      else None)"

text \<open>
  The field a key belongs to: the field whose name is the key or, failing that, whose
  folded name is the folded key. The struct has the one field \<open>userQuery\<close>.
\<close>

definition fieldFor :: "(nat \<Rightarrow> nat) \<Rightarrow> string \<Rightarrow> dest" where
  "fieldFor foldRune key =
     (if key = ''userQuery'' then DestField
      else if foldName foldRune key = foldName foldRune ''userQuery'' then DestField
      else DestNone)"

lemma eof_opcode: "snd (eof s) = scanEnd \<or> snd (eof s) = scanError"
  by (simp add: eof_def Let_def)

lemma scanWhileFrom_length:
  "length (data (scanWhileFrom op d bs)) \<le> length bs"
proof (induction bs arbitrary: d)
  case Nil
  show ?case by (simp split: prod.splits)
next
  case (Cons c cs)
  obtain s' newOp where st: "scanStep (scan d) c = (s', newOp)"
    by (cases "scanStep (scan d) c")
  show ?case
    using Cons.IH [of "d\<lparr>scan := s'\<rparr>"] st by auto
qed

lemma scanWhileFrom_progress:
  "opcode (scanWhileFrom op d bs) \<noteq> scanEnd \<Longrightarrow> opcode (scanWhileFrom op d bs) \<noteq> scanError \<Longrightarrow>
   length (data (scanWhileFrom op d bs)) < length bs"
proof (induction bs arbitrary: d)
  case Nil
  then show ?case
    using eof_opcode [of "scan d"] by (auto split: prod.splits)
next
  case (Cons c cs)
  then show ?case
    by (fastforce split: prod.splits if_splits)
qed

lemma skipFrom_length:
  "skipFrom depth d bs = Some d' \<Longrightarrow> length (data d') < length bs"
  by (induction bs arbitrary: d) (fastforce split: prod.splits if_splits)+

lemma scanNext_length: "length (data (scanNext d)) \<le> length (data d)"
  by (auto simp: scanNext_def split: list.splits prod.splits)

lemma stringEnd_length: "stringEnd bs = Some (lit, rest) \<Longrightarrow> length rest \<le> length bs"
  by (induction bs arbitrary: lit rest rule: stringEnd.induct)
    (fastforce split: if_splits list.splits)+

lemma literalEnd_length: "literalEnd c bs = Some (lit, rest) \<Longrightarrow> length rest \<le> length bs"
  by (auto simp: literalEnd_def fixedEnd_def length_dropWhile_le dest: stringEnd_length
      split: if_splits)

lemma rescanLiteral_length:
  "rescanLiteral d = Some (item, d') \<Longrightarrow> length (data d') \<le> length (data d)"
  by (auto simp: rescanLiteral_def split: option.splits list.splits prod.splits
      dest!: literalEnd_length)

lemma literalStore_data: "literalStore item v d = Some d' \<Longrightarrow> data d' = data d"
  by (auto simp: literalStore_def saveError_def split: list.splits if_splits option.splits)

lemma saveError_data: "data (saveError e d) = data d"
  by (simp add: saveError_def)

lemma skip_scanNext_length:
  "skip d = Some x \<Longrightarrow> length (data (scanNext x)) \<le> length (data d)"
  using skipFrom_length [of "length (parseState (scan d))" d "data d" x] scanNext_length [of x]
  by (simp add: skip_def)

lemma memberValue_length:
  "memberValue v d = Some d' \<Longrightarrow> length (data d') \<le> length (data d)"
proof (cases "opcode d = scanBeginLiteral")
  case True
  assume "memberValue v d = Some d'"
  with True show ?thesis
    by (auto simp: memberValue_def split: if_splits option.splits prod.splits
        dest!: rescanLiteral_length literalStore_data)
next
  case False
  assume "memberValue v d = Some d'"
  with False show ?thesis
    using skip_scanNext_length [of d] skip_scanNext_length [of "saveError e d" for e]
    by (auto simp: memberValue_def saveError_data split: if_splits)
qed

text \<open>
  \<open>d.object(v)\<close> for the struct: the loop over the members of the object. Each round
  reads a key, finds its field, reads the colon and the value, and ends at the comma or
  the closing brace.
\<close>

function objectLoop :: "(nat \<Rightarrow> nat) \<Rightarrow> decodeState \<Rightarrow> decodeState option" where
  "objectLoop foldRune d =
     (let d1 = scanWhile scanSkipSpace d in
      if opcode d1 = scanEndObject then Some d1
      else if opcode d1 \<noteq> scanBeginLiteral then None
      else (case rescanLiteral d1 of
          None \<Rightarrow> None
        | Some (item, d2) \<Rightarrow>
            (case unquoteBytes item of
               None \<Rightarrow> None
             | Some key \<Rightarrow>
                 let subv = fieldFor foldRune key;
                     d3 = (if opcode d2 = scanSkipSpace then scanWhile scanSkipSpace d2 else d2)
                 in if opcode d3 \<noteq> scanObjectKey then None
                    else (case memberValue subv (scanWhile scanSkipSpace d3) of
                        None \<Rightarrow> None
                      | Some d5 \<Rightarrow>
                          let d6 = (if opcode d5 = scanSkipSpace
                                    then scanWhile scanSkipSpace d5 else d5)
                          in if opcode d6 = scanEndObject then Some d6
                             else if opcode d6 \<noteq> scanObjectValue then None
                             else objectLoop foldRune d6))))"
  by pat_completeness auto
termination
proof (relation "measure (\<lambda>(f, d). length (data d))", goal_cases)
  case 1
  show ?case by simp
next
  case (2 foldRune d d1 x2 item d2 key subv d3 d5 d6)
  have a: "length (data d1) < length (data d)"
    using 2(1,2,3) scanWhileFrom_progress [of scanSkipSpace d "data d"]
    by (simp add: scanWhile_def)
  have b: "length (data d2) \<le> length (data d1)"
    using 2(4,5) rescanLiteral_length [of d1 item d2] by simp
  have c: "length (data d3) \<le> length (data d2)"
    using 2(8) scanWhileFrom_length [of scanSkipSpace d2 "data d2"]
    by (simp add: scanWhile_def)
  have e: "length (data d5) \<le> length (data d3)"
    using 2(10) memberValue_length [of subv "scanWhile scanSkipSpace d3" d5]
      scanWhileFrom_length [of scanSkipSpace d3 "data d3"]
    by (simp add: scanWhile_def)
  have f: "length (data d6) \<le> length (data d5)"
    using 2(11) scanWhileFrom_length [of scanSkipSpace d5 "data d5"]
    by (simp add: scanWhile_def)
  show ?case
    using a b c e f by simp
qed

text \<open>
  \<open>d.value(rv)\<close> for the value at the top, whose destination is the struct, and
  \<open>unmarshal\<close>, which returns the first error that has been saved.
\<close>

definition topValue :: "(nat \<Rightarrow> nat) \<Rightarrow> decodeState \<Rightarrow> decodeState option" where
  "topValue foldRune d =
     (if opcode d = scanBeginArray then
        map_option scanNext (skip (saveError (UnmarshalTypeError ''array'' DestStruct) d))
      else if opcode d = scanBeginObject then
        map_option scanNext (objectLoop foldRune d)
      else if opcode d = scanBeginLiteral then
        (case rescanLiteral d of
           None \<Rightarrow> None
         | Some (item, d') \<Rightarrow> literalStore item DestStruct d')
      else None)"

definition unmarshal :: "(nat \<Rightarrow> nat) \<Rightarrow> string \<Rightarrow> TravelAgentInput \<Rightarrow> DecodeError + TravelAgentInput" where
  "unmarshal foldRune bytes v =
     (case topValue foldRune (scanWhile scanSkipSpace (init bytes v)) of
        None \<Rightarrow> Inl Panic
      | Some d \<Rightarrow> (case savedError d of Some e \<Rightarrow> Inl e | None \<Rightarrow> Inr (target d)))"

text \<open>
  \<open>Decoder.Decode\<close> on a fresh decoder over the body: the first value is delimited, then
  decoded into \<open>v\<close>. Bytes after the first value stay in the decoder's buffer.
\<close>

definition Decode :: "(nat \<Rightarrow> nat) \<Rightarrow> string \<Rightarrow> TravelAgentInput \<Rightarrow> DecodeError + TravelAgentInput" where
  "Decode foldRune body v =
     (case readValue body of
        Inl e \<Rightarrow> Inl e
      | Inr n \<Rightarrow> unmarshal foldRune (take n body) v)"

section \<open>Encoding the response (\<open>encode.go\<close>)\<close>

text \<open>
  \<open>json.NewEncoder(w).Encode\<close> of a \<open>map[string]string\<close>. A string is written between
  quotes; with the encoder's default setting (HTML escaping on) the bytes that are copied
  unchanged are the ASCII bytes from the space on, except the quote, the backslash and
  \<open><\<close>, \<open>>\<close>, \<open>&\<close>. A malformed byte is written as the escape of \<open>U+FFFD\<close>, and the line and paragraph
  separators \<open>U+2028\<close> and \<open>U+2029\<close> are escaped.
\<close>

definition htmlSafe :: "char \<Rightarrow> bool" where
  "htmlSafe c =
     (CHR '' '' \<le> c \<and> c \<noteq> CHR 0x22 \<and> c \<noteq> CHR 0x5C \<and> c \<noteq> CHR ''<'' \<and> c \<noteq> CHR ''>'' \<and>
      c \<noteq> CHR ''&'')"

definition hex :: "nat \<Rightarrow> char" where
  "hex n = ''0123456789abcdef'' ! n"

definition escapeByte :: "char \<Rightarrow> string" where
  "escapeByte c =
     (if c = CHR 0x5C \<or> c = CHR 0x22 then [CHR 0x5C, c]
      else if c = CHR 0x08 then [CHR 0x5C, CHR ''b'']
      else if c = CHR 0x0C then [CHR 0x5C, CHR ''f'']
      else if c = CHR 0x0A then [CHR 0x5C, CHR ''n'']
      else if c = CHR 0x0D then [CHR 0x5C, CHR ''r'']
      else if c = CHR 0x09 then [CHR 0x5C, CHR ''t'']
      else [CHR 0x5C, CHR ''u'', CHR ''0'', CHR ''0'', hex (byte c div 16), hex (byte c mod 16)])"

fun escapeString :: "string \<Rightarrow> string" where
  "escapeString [] = []"
| "escapeString (c # cs) =
     (if byte c < 0x80 then
        (if htmlSafe c then [c] else escapeByte c) @ escapeString cs
      else (case DecodeRune (c # cs) of (r, n) \<Rightarrow>
          if r = RuneError \<and> n = 1 then
            [CHR 0x5C, CHR ''u'', CHR ''f'', CHR ''f'', CHR ''f'', CHR ''d''] @ escapeString cs
          else if r = 0x2028 \<or> r = 0x2029 then
            [CHR 0x5C, CHR ''u'', CHR ''2'', CHR ''0'', CHR ''2'', hex (r mod 16)] @
            escapeString (drop (n - 1) cs)
          else take n (c # cs) @ escapeString (drop (n - 1) cs)))"

definition appendString :: "string \<Rightarrow> string" where
  "appendString src = [CHR 0x22] @ escapeString src @ [CHR 0x22]"

text \<open>
  A map is written as an object, its keys in sorted order. The map is given as the list
  of its entries.
\<close>

fun encodeEntries :: "(string \<times> string) list \<Rightarrow> string" where
  "encodeEntries [] = []"
| "encodeEntries [(k, v)] = appendString k @ '':'' @ appendString v"
| "encodeEntries ((k, v) # kvs) = appendString k @ '':'' @ appendString v @ '','' @ encodeEntries kvs"

definition marshalMap :: "(string \<times> string) list \<Rightarrow> string" where
  "marshalMap m = ''{'' @ encodeEntries (sort_key fst m) @ ''}''"

section \<open>The response writer (\<open>net/http\<close>)\<close>

text \<open>
  The state of an \<open>http.ResponseWriter\<close>: the header map, the status code once
  \<open>WriteHeader\<close> has been called, and the bytes written to the body. A second \<open>WriteHeader\<close>
  has no effect; a \<open>Write\<close> before any \<open>WriteHeader\<close> sends status 200. The guess of a
  content type for a response that has none is not modelled: the handler sets the header
  on each of its paths.
\<close>

record ResponseWriter =
  Header :: "string \<rightharpoonup> string"
  Status :: "nat option"
  Written :: string

definition newResponseWriter :: ResponseWriter where
  "newResponseWriter = \<lparr>Header = Map.empty, Status = None, Written = []\<rparr>"

definition StatusOK :: nat where "StatusOK = 200"
definition StatusBadRequest :: nat where "StatusBadRequest = 400"
definition StatusMethodNotAllowed :: nat where "StatusMethodNotAllowed = 405"
definition StatusInternalServerError :: nat where "StatusInternalServerError = 500"

definition MethodPost :: string where "MethodPost = ''POST''"

definition Set :: "string \<Rightarrow> string \<Rightarrow> ResponseWriter \<Rightarrow> ResponseWriter" where
  "Set k v w = w\<lparr>Header := (Header w)(k \<mapsto> v)\<rparr>"

definition Del :: "string \<Rightarrow> ResponseWriter \<Rightarrow> ResponseWriter" where
  "Del k w = w\<lparr>Header := (Header w)(k := None)\<rparr>"

definition WriteHeader :: "nat \<Rightarrow> ResponseWriter \<Rightarrow> ResponseWriter" where
  "WriteHeader code w = (if Status w = None then w\<lparr>Status := Some code\<rparr> else w)"

definition Write :: "string \<Rightarrow> ResponseWriter \<Rightarrow> ResponseWriter" where
  "Write b w = (let w' = WriteHeader StatusOK w in w'\<lparr>Written := Written w' @ b\<rparr>)"

text \<open>\<open>http.Error\<close> replies with a plain-text message and the given status; the message is
  written with \<open>fmt.Fprintln\<close>, which ends the line.\<close>

definition Error :: "string \<Rightarrow> nat \<Rightarrow> ResponseWriter \<Rightarrow> ResponseWriter" where
  "Error msg code w =
     Write (msg @ [CHR 0x0A])
       (WriteHeader code
         (Set ''X-Content-Type-Options'' ''nosniff''
           (Set ''Content-Type'' ''text/plain; charset=utf-8''
             (Del ''Content-Length'' w))))"

text \<open>\<open>Encoder.Encode\<close> writes the encoding of the value and a newline.\<close>

definition Encode :: "(string \<times> string) list \<Rightarrow> ResponseWriter \<Rightarrow> ResponseWriter" where
  "Encode v w = Write (marshalMap v @ [CHR 0x0A]) w"

section \<open>The prompt (prompts.go)\<close>

text \<open>
  The collaborator is the hosted model behind Genkit. It is called with the system
  instruction, the rendered user text and the tools it may invoke, and returns a response
  or an error; what it does in between, tool calls included, is up to it. It is a
  parameter of the model, a function from the request to the result.
\<close>

record Tool =
  ToolName :: string
  ToolDescription :: string

record GenerateRequest =
  System :: string
  UserText :: string
  ToolList :: "Tool list"

record ModelResponse =
  Text :: string

type_synonym collaborator = "GenerateRequest \<Rightarrow> error + ModelResponse"

datatype Event = ReadBody | RunFlow TravelAgentInput | CallModel GenerateRequest

record Prompt =
  PromptName :: string
  SystemText :: string
  PromptFn :: "TravelAgentInput \<Rightarrow> error + string"
  Tools :: "Tool list"

definition sysPrompt :: string where
  "sysPrompt =
     ''You are a professional and courteous travel agent assistant.'' @
     [CHR 0x0A, CHR 0x09, CHR 0x09, CHR 0x09] @
     ''You have access to the following tools:'' @
     [CHR 0x0A, CHR 0x09, CHR 0x09, CHR 0x09] @
     ''- searchFlights: to find flights between two cities.'' @
     [CHR 0x0A, CHR 0x09, CHR 0x09, CHR 0x09] @
     ''- suggestHotel: to recommend a hotel in a specific city.'' @
     [CHR 0x0A, CHR 0x0A, CHR 0x09, CHR 0x09, CHR 0x09] @
     ''Your goal is to fulfill the user's travel request by intelligently using the tools at your disposal.'' @
     [CHR 0x0A, CHR 0x0A, CHR 0x09, CHR 0x09, CHR 0x09] @
     ''- If the user asks for a flight, use the searchFlights tool.'' @
     [CHR 0x0A, CHR 0x09, CHR 0x09, CHR 0x09] @
     ''- If the user asks for a hotel, use the suggestHotel tool.'' @
     [CHR 0x0A, CHR 0x09, CHR 0x09, CHR 0x09] @
     ''- If the user asks for both, you should call both tools sequentially or in parallel as needed.'' @
     [CHR 0x0A, CHR 0x09, CHR 0x09, CHR 0x09] @
     ''- If you are missing any information (e.g., a city or destination), you MUST ask the user for it.'' @
     [CHR 0x0A, CHR 0x09, CHR 0x09, CHR 0x09] @
     ''- If the user's request is not related to travel, respond politely that you can only help with travel-related queries.''"

text \<open>
  The function given to \<open>ai.WithPromptFn\<close>. Its argument has the static type \<open>any\<close> and is
  asserted to be a \<open>TravelAgentInput\<close>; the flow passes a value of that type.
\<close>

definition promptFn :: "TravelAgentInput \<Rightarrow> error + string" where
  "promptFn input = Inr (Sprintf ''The user's request is: %s'' [UserQuery input])"

definition travelAgentPrompt :: Prompt where
  "travelAgentPrompt =
     \<lparr>PromptName = ''travelAgentPrompt'',
      SystemText = sysPrompt,
      PromptFn = promptFn,
      Tools =
        [\<lparr>ToolName = ''searchFlights'',
          ToolDescription = ''Searches for flights between a departure and arrival city.''\<rparr>,
         \<lparr>ToolName = ''suggestHotel'',
          ToolDescription = ''Suggests a popular and well-rated hotel in a given destination.''\<rparr>]\<rparr>"

text \<open>
  \<open>Execute\<close> on a prompt (Genkit): the user text is rendered with the prompt function;
  if that fails, its error is returned and the model is not called. Otherwise the model is
  called, once, with the system text, the user text and the tools. The call is recorded in
  the trace of events.
\<close>

definition Execute ::
  "collaborator \<Rightarrow> Prompt \<Rightarrow> TravelAgentInput \<Rightarrow> Event list \<Rightarrow> (error + ModelResponse) \<times> Event list" where
  "Execute model p input tr =
     (case PromptFn p input of
        Inl e \<Rightarrow> (Inl e, tr)
      | Inr text \<Rightarrow>
          let req = \<lparr>System = SystemText p, UserText = text, ToolList = Tools p\<rparr>
          in (model req, tr @ [CallModel req]))"

section \<open>The flow and the HTTP handler (main.go)\<close>

definition travelAgentFlow ::
  "collaborator \<Rightarrow> TravelAgentInput \<Rightarrow> Event list \<Rightarrow> (error + string) \<times> Event list" where
  "travelAgentFlow model input tr =
     (case Execute model travelAgentPrompt input tr of
        (Inl e, tr') \<Rightarrow> (Inl e, tr')
      | (Inr resp, tr') \<Rightarrow> (Inr (Text resp), tr'))"

text \<open>\<open>Run\<close> on a flow (Genkit) calls the function of the flow on the input.\<close>

definition Run ::
  "(TravelAgentInput \<Rightarrow> Event list \<Rightarrow> (error + string) \<times> Event list) \<Rightarrow>
   TravelAgentInput \<Rightarrow> Event list \<Rightarrow> (error + string) \<times> Event list" where
  "Run flow input tr = flow input (tr @ [RunFlow input])"

record Request =
  Method :: string
  Body :: string

text \<open>
  What the handler takes from outside the repository: the collaborator, the text that
  \<open>Error()\<close> returns for an error of the JSON decoder, and the case folding of non-ASCII
  runes.
\<close>

record Extern =
  Model :: collaborator
  ErrorText :: "DecodeError \<Rightarrow> string"
  FoldRune :: "nat \<Rightarrow> nat"

text \<open>
  The handler of \<open>/travelAgent\<close>. It returns the response writer and the trace of what it
  has called: the decoder on the request body, the flow, the model.
\<close>

definition handler :: "Extern \<Rightarrow> ResponseWriter \<Rightarrow> Request \<Rightarrow> ResponseWriter \<times> Event list" where
  "handler x w r =
     (if Method r \<noteq> MethodPost then
        (Error ''Method not allowed'' StatusMethodNotAllowed w, [])
      else
        (case Decode (FoldRune x) (Body r) \<lparr>UserQuery = []\<rparr> of
           Inl e \<Rightarrow>
             (Error (''Invalid JSON: '' @ ErrorText x e) StatusBadRequest w, [ReadBody])
         | Inr input \<Rightarrow>
             (case Run (travelAgentFlow (Model x)) input [ReadBody] of
                (Inl e, tr) \<Rightarrow> (Error e StatusInternalServerError w, tr)
              | (Inr result, tr) \<Rightarrow>
                  (Encode [(''result'', result)]
                     (WriteHeader StatusOK (Set ''Content-Type'' ''application/json'' w)),
                   tr))))"

section \<open>Notions used in the properties\<close>

text \<open>
  The request that \<open>Execute\<close> hands to the model for the travel agent prompt and an
  input.
\<close>

definition modelRequest :: "TravelAgentInput \<Rightarrow> GenerateRequest" where
  "modelRequest input =
     \<lparr>System = sysPrompt, UserText = ''The user's request is: '' @ UserQuery input,
      ToolList = Tools travelAgentPrompt\<rparr>"




text \<open>
  \<open>utf8.Valid\<close>: the string consists of well-formed UTF-8 encodings only.
\<close>

fun Valid :: "string \<Rightarrow> bool" where
  "Valid [] = True"
| "Valid (c # cs) =
     (if byte c < 0x80 then Valid cs
      else (case DecodeRune (c # cs) of (r, n) \<Rightarrow>
          \<not> (r = RuneError \<and> n = 1) \<and> Valid (drop (n - 1) cs)))"

text \<open>
  The well-formed encodings of two, three and four bytes, with the rune they encode.
\<close>

definition seq2 :: "char \<Rightarrow> char \<Rightarrow> nat \<Rightarrow> bool" where
  "seq2 c c1 r =
     ((\<exists>lo hi. leading (byte c) = Some (2, lo, hi) \<and> inRange lo hi (byte c1)) \<and>
      r = byte c mod 32 * 64 + byte c1 mod 64)"

definition seq3 :: "char \<Rightarrow> char \<Rightarrow> char \<Rightarrow> nat \<Rightarrow> bool" where
  "seq3 c c1 c2 r =
     ((\<exists>lo hi. leading (byte c) = Some (3, lo, hi) \<and> inRange lo hi (byte c1)) \<and>
      inRange 0x80 0xBF (byte c2) \<and>
      r = byte c mod 16 * 4096 + byte c1 mod 64 * 64 + byte c2 mod 64)"

definition seq4 :: "char \<Rightarrow> char \<Rightarrow> char \<Rightarrow> char \<Rightarrow> nat \<Rightarrow> bool" where
  "seq4 c c1 c2 c3 r =
     ((\<exists>lo hi. leading (byte c) = Some (4, lo, hi) \<and> inRange lo hi (byte c1)) \<and>
      inRange 0x80 0xBF (byte c2) \<and> inRange 0x80 0xBF (byte c3) \<and>
      r = byte c mod 8 * 262144 + byte c1 mod 64 * 4096 + byte c2 mod 64 * 64 + byte c3 mod 64)"

text \<open>
  A byte that may stand unescaped inside a JSON string literal, and the state of the scanner
  inside the string that is the value of the one member of an object.
\<close>

definition plainByte :: "char \<Rightarrow> bool" where
  "plainByte c = (c \<noteq> CHR 0x22 \<and> c \<noteq> CHR 0x5C \<and> \<not> c < CHR 0x20)"

definition inResult :: scanner where
  "inResult = \<lparr>step = StateInString, endTop = False, parseState = [parseObjectValue], err = nilError\<rparr>"

section \<open>Properties of the tools\<close>

lemma lower_London: "ToLower f ''London'' = ''london''"
  by code_simp

lemma lower_Tokyo: "ToLower f ''Tokyo'' = ''tokyo''"
  by code_simp

lemma Sprintf_fallback:
  "Sprintf ''I'm sorry, I don't have a specific hotel recommendation for %s.'' [d] =
   ''I'm sorry, I don't have a specific hotel recommendation for '' @ d @ ''.''"
  by simp

lemma Sprintf_flights:
  "Sprintf ''Found flights from %s to %s. A non-stop flight is available for $550.'' [d, a] =
   ''Found flights from '' @ d @ '' to '' @ a @ ''. A non-stop flight is available for $550.''"
  by simp

text \<open>The three branches of the hotel tool's switch, in terms of case-insensitive equality.\<close>

lemma suggestHotel_cases:
  "fst (suggestHotelTool mapLower \<lparr>Destination = d\<rparr> lg) =
     (if equalIgnoreCase mapLower d ''London'' then
        Inr ''The Savoy is a highly-rated luxury hotel with excellent reviews.''
      else if equalIgnoreCase mapLower d ''Tokyo'' then
        Inr ''The Park Hyatt is a great choice with stunning city views.''
      else Inr (''I'm sorry, I don't have a specific hotel recommendation for '' @ d @ ''.''))"
  unfolding suggestHotelTool_def equalIgnoreCase_def lower_London lower_Tokyo Let_def
    Sprintf_fallback
  by simp

lemma London_not_Tokyo: "ToLower mapLower ''London'' \<noteq> ToLower mapLower ''Tokyo''"
  unfolding lower_London lower_Tokyo by simp

text \<open>
  Claim C3. For every destination string given to the hotel suggestion tool: if it equals
  "London" under case-insensitive comparison the output contains "Savoy"; if it equals
  "Tokyo" under case-insensitive comparison the output contains "Park Hyatt"; for any other
  string, the empty string included, the output is the generic fallback message; and the
  tool never returns an error. The property holds whatever the logger holds and whatever
  the Unicode lower-casing of a non-ASCII string is.
\<close>

theorem suggestHotel_lookup:
  "(equalIgnoreCase mapLower d ''London'' \<longrightarrow>
      (\<exists>out. fst (suggestHotelTool mapLower \<lparr>Destination = d\<rparr> lg) = Inr out \<and>
         sublist ''Savoy'' out)) \<and>
   (equalIgnoreCase mapLower d ''Tokyo'' \<longrightarrow>
      (\<exists>out. fst (suggestHotelTool mapLower \<lparr>Destination = d\<rparr> lg) = Inr out \<and>
         sublist ''Park Hyatt'' out)) \<and>
   (\<not> equalIgnoreCase mapLower d ''London'' \<and> \<not> equalIgnoreCase mapLower d ''Tokyo'' \<longrightarrow>
      fst (suggestHotelTool mapLower \<lparr>Destination = d\<rparr> lg) =
        Inr (''I'm sorry, I don't have a specific hotel recommendation for '' @ d @ ''.'')) \<and>
   (\<exists>out. fst (suggestHotelTool mapLower \<lparr>Destination = d\<rparr> lg) = Inr out)"
proof -
  have savoy:
    "sublist ''Savoy'' ''The Savoy is a highly-rated luxury hotel with excellent reviews.''"
    using sublist_appendI [of "''Savoy''" "''The ''"
        "'' is a highly-rated luxury hotel with excellent reviews.''"]
    by simp
  have hyatt:
    "sublist ''Park Hyatt'' ''The Park Hyatt is a great choice with stunning city views.''"
    using sublist_appendI [of "''Park Hyatt''" "''The ''"
        "'' is a great choice with stunning city views.''"]
    by simp
  show ?thesis
    using savoy hyatt London_not_Tokyo [of mapLower]
    by (auto simp: suggestHotel_cases equalIgnoreCase_def)
qed

theorem suggestHotel_lookup_witness:
  "equalIgnoreCase (\<lambda>s. s) ''LONDON'' ''London'' \<and>
   (\<exists>out. fst (suggestHotelTool (\<lambda>s. s) \<lparr>Destination = ''LONDON''\<rparr> []) = Inr out \<and>
      sublist ''Savoy'' out) \<and>
   equalIgnoreCase (\<lambda>s. s) ''tOkYo'' ''Tokyo'' \<and>
   (\<exists>out. fst (suggestHotelTool (\<lambda>s. s) \<lparr>Destination = ''tOkYo''\<rparr> []) = Inr out \<and>
      sublist ''Park Hyatt'' out) \<and>
   \<not> equalIgnoreCase (\<lambda>s. s) '''' ''London'' \<and> \<not> equalIgnoreCase (\<lambda>s. s) '''' ''Tokyo'' \<and>
   fst (suggestHotelTool (\<lambda>s. s) \<lparr>Destination = ''''\<rparr> []) =
     Inr ''I'm sorry, I don't have a specific hotel recommendation for .''"
proof -
  have a: "equalIgnoreCase (\<lambda>s. s) ''LONDON'' ''London''"
    unfolding equalIgnoreCase_def by code_simp
  have b: "equalIgnoreCase (\<lambda>s. s) ''tOkYo'' ''Tokyo''"
    unfolding equalIgnoreCase_def by code_simp
  have c: "\<not> equalIgnoreCase (\<lambda>s. s) '''' ''London''"
    "\<not> equalIgnoreCase (\<lambda>s. s) '''' ''Tokyo''"
    unfolding equalIgnoreCase_def by code_simp+
  show ?thesis
    using a b c
      suggestHotel_lookup [of "\<lambda>s. s" "''LONDON''" "[]"]
      suggestHotel_lookup [of "\<lambda>s. s" "''tOkYo''" "[]"]
      suggestHotel_lookup [of "\<lambda>s. s" "''''" "[]"]
    by simp
qed

text \<open>
  Claim C4. For every pair of strings (departure, arrival), the output of the flight search
  tool contains the departure string, contains the arrival string and contains the fixed
  price "$550"; the tool never returns an error.
\<close>

theorem searchFlights_output:
  "\<exists>out. fst (searchFlightsTool \<lparr>Departure = d, Arrival = a\<rparr> lg) = Inr out \<and>
     sublist d out \<and> sublist a out \<and> sublist ''$550'' out"
proof -
  let ?out = "''Found flights from '' @ d @ '' to '' @ a @
    ''. A non-stop flight is available for $550.''"
  have r: "fst (searchFlightsTool \<lparr>Departure = d, Arrival = a\<rparr> lg) = Inr ?out"
    unfolding searchFlightsTool_def Let_def Sprintf_flights by simp
  have 1: "sublist d ?out"
    by (rule sublist_appendI)
  have 2: "sublist a ?out"
    using sublist_appendI [of a "''Found flights from '' @ d @ '' to ''"
        "''. A non-stop flight is available for $550.''"]
    by simp
  have 3: "sublist ''$550'' ?out"
    using sublist_appendI [of "''$550''"
        "''Found flights from '' @ d @ '' to '' @ a @ ''. A non-stop flight is available for ''"
        "''.''"]
    by simp
  show ?thesis
    using r 1 2 3 by blast
qed

text \<open>
  Claim C5. Both tool functions are deterministic functions of their input: two calls of
  the flight search tool with the same (departure, arrival), and two calls of the hotel
  suggestion tool with the same destination, return the same output string. The only
  state a call touches is the logger; the output does not depend on it, be it any two
  logger states or the state the first call leaves behind.
\<close>

theorem tools_deterministic:
  "fst (searchFlightsTool i lg) = fst (searchFlightsTool i lg') \<and>
   fst (searchFlightsTool i (snd (searchFlightsTool i lg))) = fst (searchFlightsTool i lg) \<and>
   fst (suggestHotelTool mapLower h lg) = fst (suggestHotelTool mapLower h lg') \<and>
   fst (suggestHotelTool mapLower h (snd (suggestHotelTool mapLower h lg))) =
     fst (suggestHotelTool mapLower h lg)"
  by (simp add: searchFlightsTool_def suggestHotelTool_def Let_def)

text \<open>
  Claim C10. For every destination d that does not equal "London" or "Tokyo" under
  case-insensitive comparison, the fallback output of the hotel tool echoes d verbatim:
  it is exactly "I'm sorry, I don't have a specific hotel recommendation for " followed
  by d and a period.
\<close>

theorem suggestHotel_fallback_echo:
  "\<not> equalIgnoreCase mapLower d ''London'' \<Longrightarrow> \<not> equalIgnoreCase mapLower d ''Tokyo'' \<Longrightarrow>
   fst (suggestHotelTool mapLower \<lparr>Destination = d\<rparr> lg) =
     Inr (''I'm sorry, I don't have a specific hotel recommendation for '' @ d @ ''.'')"
  by (simp add: suggestHotel_cases)

theorem suggestHotel_fallback_echo_witness:
  "\<not> equalIgnoreCase (\<lambda>s. s) ''Paris'' ''London'' \<and>
   \<not> equalIgnoreCase (\<lambda>s. s) ''Paris'' ''Tokyo'' \<and>
   fst (suggestHotelTool (\<lambda>s. s) \<lparr>Destination = ''Paris''\<rparr> []) =
     Inr ''I'm sorry, I don't have a specific hotel recommendation for Paris.''"
proof -
  have a: "\<not> equalIgnoreCase (\<lambda>s. s) ''Paris'' ''London''"
    unfolding equalIgnoreCase_def by code_simp
  have b: "\<not> equalIgnoreCase (\<lambda>s. s) ''Paris'' ''Tokyo''"
    unfolding equalIgnoreCase_def by code_simp
  show ?thesis
    using a b suggestHotel_fallback_echo [OF a b, of "[]"] by simp
qed

section \<open>Properties of the decoder\<close>














lemma Decode_hi:
  \<open>Decode f ''{"userQuery":"hi"}'' \<lparr>UserQuery = []\<rparr> = Inr \<lparr>UserQuery = ''hi''\<rparr>\<close>
  by code_simp

lemma Decode_empty_object: "Decode f ''{}'' \<lparr>UserQuery = []\<rparr> = Inr \<lparr>UserQuery = []\<rparr>"
  by code_simp

section \<open>Properties of string literals\<close>

lemma leading_size: "leading p = Some (sz, lo, hi) \<Longrightarrow> sz = 2 \<or> sz = 3 \<or> sz = 4"
  by (auto simp: leading_def split: if_splits)

lemma DecodeRune_ascii: "byte c < 0x80 \<Longrightarrow> DecodeRune (c # cs) = (byte c, 1)"
  by (simp add: DecodeRune_def)

lemma DecodeRune_shape:
  assumes "\<not> byte c < 0x80" "DecodeRune (c # cs) = (r, n)"
  shows "(r = RuneError \<and> n = 1) \<or>
    (\<exists>c1 p. cs = c1 # p \<and> n = 2 \<and> seq2 c c1 r) \<or>
    (\<exists>c1 c2 p. cs = c1 # c2 # p \<and> n = 3 \<and> seq3 c c1 c2 r) \<or>
    (\<exists>c1 c2 c3 p. cs = c1 # c2 # c3 # p \<and> n = 4 \<and> seq4 c c1 c2 c3 r)"
proof (cases "leading (byte c)")
  case None
  then show ?thesis
    using assms by (simp add: DecodeRune_def)
next
  case (Some t)
  obtain sz lo hi where t: "t = (sz, lo, hi)"
    by (cases t)
  have l: "leading (byte c) = Some (sz, lo, hi)"
    using Some t by simp
  consider "sz = 2" | "sz = 3" | "sz = 4"
    using leading_size [OF l] by blast
  then show ?thesis
  proof cases
    case 1
    then show ?thesis
      using assms l
      by (auto simp: DecodeRune_def Let_def seq2_def split: list.splits if_splits)
  next
    case 2
    then show ?thesis
      using assms l
      by (auto simp: DecodeRune_def Let_def seq3_def split: list.splits if_splits)
  next
    case 3
    then show ?thesis
      using assms l
      by (auto simp: DecodeRune_def Let_def seq4_def split: list.splits if_splits)
  qed
qed

lemma DecodeRune_seq2: "seq2 c c1 r \<Longrightarrow> DecodeRune (c # c1 # p) = (r, 2)"
  by (auto simp: seq2_def DecodeRune_def Let_def leading_def inRange_def split: if_splits)

lemma DecodeRune_seq3: "seq3 c c1 c2 r \<Longrightarrow> DecodeRune (c # c1 # c2 # p) = (r, 3)"
  by (auto simp: seq3_def DecodeRune_def Let_def leading_def inRange_def split: if_splits)

lemma DecodeRune_seq4: "seq4 c c1 c2 c3 r \<Longrightarrow> DecodeRune (c # c1 # c2 # c3 # p) = (r, 4)"
  by (auto simp: seq4_def DecodeRune_def Let_def leading_def inRange_def split: if_splits)

lemma mod_shift_aux:
  fixes d k m :: nat
  assumes "d < m"
  shows "(k * m + d) mod m = d"
  using assms by simp

lemma mod_shift:
  fixes p :: nat
  shows "192 \<le> p \<Longrightarrow> p < 224 \<Longrightarrow> p mod 32 = p - 192"
    "224 \<le> p \<Longrightarrow> p < 240 \<Longrightarrow> p mod 16 = p - 224"
    "240 \<le> p \<Longrightarrow> p < 248 \<Longrightarrow> p mod 8 = p - 240"
    "128 \<le> p \<Longrightarrow> p < 192 \<Longrightarrow> p mod 64 = p - 128"
proof -
  show "p mod 32 = p - 192" if "192 \<le> p" "p < 224"
    using mod_shift_aux [of "p - 192" 32 6] that by simp
  show "p mod 16 = p - 224" if "224 \<le> p" "p < 240"
    using mod_shift_aux [of "p - 224" 16 14] that by simp
  show "p mod 8 = p - 240" if "240 \<le> p" "p < 248"
    using mod_shift_aux [of "p - 240" 8 30] that by simp
  show "p mod 64 = p - 128" if "128 \<le> p" "p < 192"
    using mod_shift_aux [of "p - 128" 64 2] that by simp
qed

lemma dm2:
  fixes a b :: nat
  assumes "b < 64"
  shows "(a * 64 + b) div 64 = a" "(a * 64 + b) mod 64 = b"
  using assms by simp_all

lemma dm3:
  fixes a b c :: nat
  assumes "b < 64" "c < 64"
  shows "(a * 4096 + b * 64 + c) div 4096 = a"
    "(a * 4096 + b * 64 + c) div 64 mod 64 = b"
    "(a * 4096 + b * 64 + c) mod 64 = c"
proof -
  have x: "b * 64 + c < 4096" using assms by linarith
  have e1: "a * 4096 + b * 64 + c = a * 4096 + (b * 64 + c)" by simp
  have e2: "a * 4096 + b * 64 + c = (a * 64 + b) * 64 + c" by (simp add: algebra_simps)
  show "(a * 4096 + b * 64 + c) div 4096 = a"
    unfolding e1 using x by simp
  show "(a * 4096 + b * 64 + c) div 64 mod 64 = b"
    unfolding e2 dm2(1) [OF assms(2), of "a * 64 + b"] by (rule dm2(2) [OF assms(1)])
  show "(a * 4096 + b * 64 + c) mod 64 = c"
    unfolding e2 by (rule dm2(2) [OF assms(2)])
qed

lemma dm4:
  fixes a b c d :: nat
  assumes "b < 64" "c < 64" "d < 64"
  shows "(a * 262144 + b * 4096 + c * 64 + d) div 262144 = a"
    "(a * 262144 + b * 4096 + c * 64 + d) div 4096 mod 64 = b"
    "(a * 262144 + b * 4096 + c * 64 + d) div 64 mod 64 = c"
    "(a * 262144 + b * 4096 + c * 64 + d) mod 64 = d"
proof -
  let ?r = "a * 262144 + b * 4096 + c * 64 + d"
  have e: "?r = (a * 64 + b) * 4096 + c * 64 + d" by (simp add: algebra_simps)
  have x: "b * 4096 + c * 64 + d < 262144" using assms by linarith
  have e1: "?r = a * 262144 + (b * 4096 + c * 64 + d)" by simp
  show "?r div 262144 = a"
    unfolding e1 using x by simp
  show "?r div 4096 mod 64 = b"
    unfolding e dm3(1) [OF assms(2,3), of "a * 64 + b"] by (rule dm2(2) [OF assms(1)])
  show "?r div 64 mod 64 = c"
    unfolding e by (rule dm3(2) [OF assms(2,3)])
  show "?r mod 64 = d"
    unfolding e by (rule dm3(3) [OF assms(2,3)])
qed

lemma seq2_bytes:
  "seq2 c c1 r \<Longrightarrow> 194 \<le> byte c \<and> byte c \<le> 223 \<and> 128 \<le> byte c1 \<and> byte c1 \<le> 191"
  by (auto simp: seq2_def leading_def inRange_def split: if_splits)

lemma seq3_bytes:
  "seq3 c c1 c2 r \<Longrightarrow>
   224 \<le> byte c \<and> byte c \<le> 239 \<and> 128 \<le> byte c1 \<and> byte c1 \<le> 191 \<and>
   128 \<le> byte c2 \<and> byte c2 \<le> 191 \<and>
   (byte c = 224 \<longrightarrow> 160 \<le> byte c1) \<and> (byte c = 237 \<longrightarrow> byte c1 \<le> 159)"
  by (auto simp: seq3_def leading_def inRange_def split: if_splits)

lemma seq4_bytes:
  "seq4 c c1 c2 c3 r \<Longrightarrow>
   240 \<le> byte c \<and> byte c \<le> 244 \<and> 128 \<le> byte c1 \<and> byte c1 \<le> 191 \<and>
   128 \<le> byte c2 \<and> byte c2 \<le> 191 \<and> 128 \<le> byte c3 \<and> byte c3 \<le> 191 \<and>
   (byte c = 240 \<longrightarrow> 144 \<le> byte c1) \<and> (byte c = 244 \<longrightarrow> byte c1 \<le> 143)"
  by (auto simp: seq4_def leading_def inRange_def split: if_splits)

lemma char_of_byte: "char_of (byte c) = c"
  by (simp add: byte_def)

lemma EncodeRune_seq2:
  assumes "seq2 c c1 r"
  shows "EncodeRune r = [c, c1]"
proof -
  define a where "a = byte c - 192"
  define b where "b = byte c1 - 128"
  have bounds: "194 \<le> byte c" "byte c \<le> 223" "128 \<le> byte c1" "byte c1 \<le> 191"
    using seq2_bytes [OF assms] by simp_all
  have pa: "byte c = 192 + a" and pb: "byte c1 = 128 + b" and a: "2 \<le> a" "a \<le> 31" and b: "b < 64"
    using bounds by (simp_all add: a_def b_def)
  have r: "r = a * 64 + b"
    using assms mod_shift(1) [of "byte c"] mod_shift(4) [of "byte c1"] bounds
    by (simp add: seq2_def a_def b_def)
  have r1: "\<not> r \<le> 127" and r2: "r \<le> 2047"
    using a b r by simp_all
  have "EncodeRune r = [char_of (192 + a), char_of (128 + b)]"
    using r1 r2 dm2 [OF b, of a] by (simp add: EncodeRune_def r)
  then show ?thesis
    using pa pb char_of_byte by metis
qed

lemma EncodeRune_seq3:
  assumes "seq3 c c1 c2 r"
  shows "EncodeRune r = [c, c1, c2]"
proof -
  define a where "a = byte c - 224"
  define b where "b = byte c1 - 128"
  define d where "d = byte c2 - 128"
  have bounds: "224 \<le> byte c" "byte c \<le> 239" "128 \<le> byte c1" "byte c1 \<le> 191"
    "128 \<le> byte c2" "byte c2 \<le> 191" "byte c = 224 \<longrightarrow> 160 \<le> byte c1"
    "byte c = 237 \<longrightarrow> byte c1 \<le> 159"
    using seq3_bytes [OF assms] by simp_all
  have pa: "byte c = 224 + a" and pb: "byte c1 = 128 + b" and pd: "byte c2 = 128 + d"
    and a: "a \<le> 15" and b: "b < 64" and d: "d < 64"
    and lo: "a = 0 \<longrightarrow> 32 \<le> b" and hi: "a = 13 \<longrightarrow> b \<le> 31"
    using bounds by (auto simp: a_def b_def d_def)
  have r: "r = a * 4096 + b * 64 + d"
    using assms mod_shift(2) [of "byte c"] mod_shift(4) [of "byte c1"]
      mod_shift(4) [of "byte c2"] bounds
    by (simp add: seq3_def a_def b_def d_def)
  have r1: "\<not> r \<le> 2047"
    using lo b d r by (cases "a = 0") simp_all
  have r2: "r \<le> 65535"
    using a b d r by simp
  have r3: "\<not> inRange 55296 57343 r"
  proof -
    consider "a \<le> 12" | "a = 13" | "14 \<le> a"
      by linarith
    then show ?thesis
    proof cases
      case 1
      then show ?thesis using b d r by (simp add: inRange_def)
    next
      case 2
      then show ?thesis using hi b d r by (simp add: inRange_def)
    next
      case 3
      then show ?thesis using b d r by (simp add: inRange_def)
    qed
  qed
  have "EncodeRune r = [char_of (224 + a), char_of (128 + b), char_of (128 + d)]"
    using r1 r2 r3 dm3 [OF b d, of a] by (simp add: EncodeRune_def encode3_def r)
  then show ?thesis
    using pa pb pd char_of_byte by metis
qed

lemma EncodeRune_seq4:
  assumes "seq4 c c1 c2 c3 r"
  shows "EncodeRune r = [c, c1, c2, c3]"
proof -
  define a where "a = byte c - 240"
  define b where "b = byte c1 - 128"
  define d where "d = byte c2 - 128"
  define e where "e = byte c3 - 128"
  have bounds: "240 \<le> byte c" "byte c \<le> 244" "128 \<le> byte c1" "byte c1 \<le> 191"
    "128 \<le> byte c2" "byte c2 \<le> 191" "128 \<le> byte c3" "byte c3 \<le> 191"
    "byte c = 240 \<longrightarrow> 144 \<le> byte c1" "byte c = 244 \<longrightarrow> byte c1 \<le> 143"
    using seq4_bytes [OF assms] by simp_all
  have pa: "byte c = 240 + a" and pb: "byte c1 = 128 + b" and pd: "byte c2 = 128 + d"
    and pe: "byte c3 = 128 + e"
    and a: "a \<le> 4" and b: "b < 64" and d: "d < 64" and e: "e < 64"
    and lo: "a = 0 \<longrightarrow> 16 \<le> b" and hi: "a = 4 \<longrightarrow> b \<le> 15"
    using bounds by (auto simp: a_def b_def d_def e_def)
  have r: "r = a * 262144 + b * 4096 + d * 64 + e"
    using assms mod_shift(3) [of "byte c"] mod_shift(4) [of "byte c1"]
      mod_shift(4) [of "byte c2"] mod_shift(4) [of "byte c3"] bounds
    by (simp add: seq4_def a_def b_def d_def e_def)
  have r1: "\<not> r \<le> 65535"
    using lo b d e r by (cases "a = 0") simp_all
  have r2: "\<not> r > 1114111"
    using hi a b d e r by (cases "a = 4") simp_all
  have r3: "\<not> inRange 55296 57343 r"
    using r1 by (simp add: inRange_def)
  have "EncodeRune r =
      [char_of (240 + a), char_of (128 + b), char_of (128 + d), char_of (128 + e)]"
    using r1 r2 r3 dm4 [OF b d e, of a] by (simp add: EncodeRune_def r)
  then show ?thesis
    using pa pb pd pe char_of_byte by metis
qed

text \<open>A well-formed encoding of more than one byte: its width, its bytes, and how it is
  decoded and encoded again.\<close>

lemma DecodeRune_wide:
  assumes "\<not> byte c < 0x80" "DecodeRune (c # cs) = (r, n)" "\<not> (r = RuneError \<and> n = 1)"
  shows "2 \<le> n" "n - 1 \<le> length cs" "EncodeRune r = c # take (n - 1) cs"
    "DecodeRune (c # take (n - 1) cs @ X) = (r, n)"
    "list_all (\<lambda>b. \<not> byte b < 0x80) (take (n - 1) cs)"
proof -
  consider (2) c1 p where "cs = c1 # p" "n = 2" "seq2 c c1 r"
    | (3) c1 c2 p where "cs = c1 # c2 # p" "n = 3" "seq3 c c1 c2 r"
    | (4) c1 c2 c3 p where "cs = c1 # c2 # c3 # p" "n = 4" "seq4 c c1 c2 c3 r"
    using DecodeRune_shape [OF assms(1,2)] assms(3) by blast
  then have "2 \<le> n \<and> n - 1 \<le> length cs \<and> EncodeRune r = c # take (n - 1) cs \<and>
    DecodeRune (c # take (n - 1) cs @ X) = (r, n) \<and>
    list_all (\<lambda>b. \<not> byte b < 0x80) (take (n - 1) cs)"
  proof cases
    case 2
    then show ?thesis
      using EncodeRune_seq2 [of c c1 r] DecodeRune_seq2 [of c c1 r X] seq2_bytes [of c c1 r]
      by simp
  next
    case 3
    then show ?thesis
      using EncodeRune_seq3 [of c c1 c2 r] DecodeRune_seq3 [of c c1 c2 r X]
        seq3_bytes [of c c1 c2 r]
      by simp
  next
    case 4
    then show ?thesis
      using EncodeRune_seq4 [of c c1 c2 c3 r] DecodeRune_seq4 [of c c1 c2 c3 r X]
        seq4_bytes [of c c1 c2 c3 r]
      by simp
  qed
  then show "2 \<le> n" "n - 1 \<le> length cs" "EncodeRune r = c # take (n - 1) cs"
    "DecodeRune (c # take (n - 1) cs @ X) = (r, n)"
    "list_all (\<lambda>b. \<not> byte b < 0x80) (take (n - 1) cs)"
    by simp_all
qed

lemma high_byte: "\<not> byte c < 0x80 \<Longrightarrow> c \<noteq> CHR 0x5C \<and> c \<noteq> CHR 0x22 \<and> \<not> c < CHR '' ''"
  by (auto simp: byte_def less_char_def)

text \<open>The second loop of unquoteBytes on a well-formed encoding that is kept as it is.\<close>

lemma unquoteRest_wide:
  assumes "\<not> byte c < 0x80" "DecodeRune (c # cs) = (r, n)" "\<not> (r = RuneError \<and> n = 1)"
  shows "unquoteRest (c # take (n - 1) cs @ X) = map_option ((@) (c # take (n - 1) cs)) (unquoteRest X)"
proof -
  note w = DecodeRune_wide [OF assms]
  have "drop (n - 1) (take (n - 1) cs @ X) = X"
    using w(2) by simp
  then show ?thesis
    using assms(1) high_byte [OF assms(1)] w(3) w(4) [of X]
    by simp
qed

lemma hex_cases:
  assumes "n < 16"
  shows "n \<in> {0, 1, 2, 3} \<union> {4, 5, 6, 7} \<union> {8, 9, 10, 11} \<union> {12, 13, 14, 15::nat}"
proof -
  have "n = 0 \<or> n = 1 \<or> n = 2 \<or> n = 3 \<or> (4 \<le> n \<and> n < 8) \<or> (8 \<le> n \<and> n < 16)"
    using assms by arith
  moreover have "4 \<le> n \<and> n < 8 \<Longrightarrow> n = 4 \<or> n = 5 \<or> n = 6 \<or> n = 7"
    by arith
  moreover have "8 \<le> n \<and> n < 16 \<Longrightarrow> (8 \<le> n \<and> n < 12) \<or> (12 \<le> n \<and> n < 16)"
    by arith
  moreover have "8 \<le> n \<and> n < 12 \<Longrightarrow> n = 8 \<or> n = 9 \<or> n = 10 \<or> n = 11"
    by arith
  moreover have "12 \<le> n \<and> n < 16 \<Longrightarrow> n = 12 \<or> n = 13 \<or> n = 14 \<or> n = 15"
    by arith
  ultimately show ?thesis
    by blast
qed

lemma hexValue_hex: "n < 16 \<Longrightarrow> hexValue (hex n) = Some n"
  using hex_cases [of n] by (auto simp: hex_def hexValue_def byte_def)

lemma getu4_hex:
  assumes "a < 16" "b < 16" "d < 16" "e < 16"
  shows "getu4 (CHR 0x5C # CHR ''u'' # hex a # hex b # hex d # hex e # X) =
    Some (((a * 16 + b) * 16 + d) * 16 + e)"
  using assms by (simp add: getu4_def hexValue_hex)

lemma nibbles: "byte c div 16 < 16" "byte c mod 16 < 16"
  using nat_of_char_less_256 [of c] by (simp_all add: byte_def less_mult_imp_div_less)

lemma EncodeRune_ascii: "byte c < 0x80 \<Longrightarrow> EncodeRune (byte c) = [c]"
  by (simp add: EncodeRune_def char_of_byte)

lemma unquoteRest_escapeU:
  assumes "a < 16" "b < 16" "d < 16" "e < 16"
    "\<not> inRange 0xD800 0xDFFF (((a * 16 + b) * 16 + d) * 16 + e)"
  shows "unquoteRest (CHR 0x5C # CHR ''u'' # hex a # hex b # hex d # hex e # X) =
    map_option ((@) (EncodeRune (((a * 16 + b) * 16 + d) * 16 + e))) (unquoteRest X)"
  using getu4_hex [OF assms(1-4), of X] assms(5) by simp

lemma unquoteRest_escapeByte:
  assumes "byte c < 0x80"
  shows "unquoteRest (escapeByte c @ X) = map_option ((#) c) (unquoteRest X)"
proof (cases "c = CHR 0x5C \<or> c = CHR 0x22 \<or> c = CHR 0x08 \<or> c = CHR 0x0C \<or> c = CHR 0x0A \<or>
    c = CHR 0x0D \<or> c = CHR 0x09")
  case True
  then show ?thesis
    by (auto simp: escapeByte_def simpleEscape_def)
next
  case False
  have v: "(0 * 16 + 0) * 16 + byte c div 16 = byte c div 16"
    by simp
  have n: "\<not> inRange 0xD800 0xDFFF (byte c)"
    using assms by (simp add: inRange_def)
  have "unquoteRest (CHR 0x5C # CHR ''u'' # hex 0 # hex 0 # hex (byte c div 16) #
      hex (byte c mod 16) # X) = map_option ((@) (EncodeRune (byte c))) (unquoteRest X)"
    using unquoteRest_escapeU [of 0 0 "byte c div 16" "byte c mod 16" X] nibbles [of c] n
    by (simp del: unquoteRest.simps)
  moreover have "hex 0 = CHR ''0''"
    by (simp add: hex_def)
  moreover have "(@) [c] = (#) c"
    by auto
  ultimately show ?thesis
    using False assms by (simp add: escapeByte_def EncodeRune_ascii del: unquoteRest.simps)
qed

lemma unquoteRest_safe:
  "byte c < 0x80 \<Longrightarrow> htmlSafe c \<Longrightarrow> unquoteRest (c # X) = map_option ((#) c) (unquoteRest X)"
  by (auto simp: htmlSafe_def)

lemma separator_escape:
  assumes "r = 0x2028 \<or> r = 0x2029"
  shows "unquoteRest (CHR 0x5C # CHR ''u'' # CHR ''2'' # CHR ''0'' # CHR ''2'' # hex (r mod 16) # X) =
    map_option ((@) (EncodeRune r)) (unquoteRest X)"
proof -
  have h: "hex 2 = CHR ''2''" "hex 0 = CHR ''0''"
    by (simp_all add: hex_def)
  have v: "((2 * 16 + 0) * 16 + 2) * 16 + r mod 16 = r" "r mod 16 < 16"
    using assms by auto
  have n: "\<not> inRange 0xD800 0xDFFF r"
    using assms by (auto simp: inRange_def)
  show ?thesis
    using unquoteRest_escapeU [of 2 0 2 "r mod 16" X] v n
    by (simp add: h del: unquoteRest.simps)
qed

text \<open>Unquoting undoes the escaping of a well-formed string.\<close>

lemma unquoteRest_escapeString:
  "Valid t \<Longrightarrow> unquoteRest (escapeString t) = Some t"
proof (induction t rule: length_induct)
  case (1 t)
  show ?case
  proof (cases t)
    case Nil
    then show ?thesis by simp
  next
    case (Cons c cs)
    show ?thesis
    proof (cases "byte c < 0x80")
      case True
      then have ih: "unquoteRest (escapeString cs) = Some cs"
        using 1 Cons by simp
      show ?thesis
      proof (cases "htmlSafe c")
        case safe: True
        then show ?thesis
          using True ih Cons unquoteRest_safe [OF True safe, of "escapeString cs"]
          by (simp del: unquoteRest.simps)
      next
        case False
        then show ?thesis
          using True ih Cons unquoteRest_escapeByte [OF True, of "escapeString cs"]
          by (simp del: unquoteRest.simps)
      qed
    next
      case False
      obtain r n where d: "DecodeRune (c # cs) = (r, n)"
        by (cases "DecodeRune (c # cs)")
      have ok: "\<not> (r = RuneError \<and> n = 1)" and v: "Valid (drop (n - 1) cs)"
        using "1.prems" Cons False d by simp_all
      note w = DecodeRune_wide [OF False d ok]
      have tk: "take n (c # cs) = c # take (n - 1) cs"
        using w(1) by (cases n) simp_all
      have whole: "c # take (n - 1) cs @ drop (n - 1) cs = c # cs"
        by simp
      have ih: "unquoteRest (escapeString (drop (n - 1) cs)) = Some (drop (n - 1) cs)"
        using "1.IH" v Cons by simp
      show ?thesis
      proof (cases "r = 0x2028 \<or> r = 0x2029")
        case True
        have "escapeString (c # cs) =
            CHR 0x5C # CHR ''u'' # CHR ''2'' # CHR ''0'' # CHR ''2'' # hex (r mod 16) #
            escapeString (drop (n - 1) cs)"
          using False d ok True by auto
        then show ?thesis
          using separator_escape [OF True, of "escapeString (drop (n - 1) cs)"] ih w(3) whole Cons
          by (simp del: unquoteRest.simps escapeString.simps)
      next
        case sep: False
        have "escapeString (c # cs) = c # take (n - 1) cs @ escapeString (drop (n - 1) cs)"
          using False d ok sep tk by auto
        then show ?thesis
          using unquoteRest_wide [OF False d ok, of "escapeString (drop (n - 1) cs)"] ih whole Cons
          by (simp del: unquoteRest.simps escapeString.simps)
      qed
    qed
  qed
qed

text \<open>The first loop of unquoteBytes only saves work: the second loop copies the prefix
  that the first loop finds.\<close>

lemma map_option_prepend:
  "map_option ((@) xs) (map_option ((@) ys) z) = map_option ((@) (xs @ ys)) z"
  "map_option ((#) c) (map_option ((@) ys) z) = map_option ((@) (c # ys)) z"
  by (cases z; simp)+

lemma unquoteRest_plainPrefix:
  "unquoteRest e =
     map_option ((@) (take (plainPrefix e) e)) (unquoteRest (drop (plainPrefix e) e))"
proof (induction e rule: length_induct)
  case (1 e)
  show ?case
  proof (cases e)
    case Nil
    then show ?thesis by simp
  next
    case (Cons c cs)
    show ?thesis
    proof (cases "c = CHR 0x5C \<or> c = CHR 0x22 \<or> c < CHR '' ''")
      case True
      then have "plainPrefix (c # cs) = 0"
        by auto
      then show ?thesis
        using Cons by (simp add: option.map_ident del: unquoteRest.simps plainPrefix.simps)
    next
      case plain: False
      show ?thesis
      proof (cases "byte c < 0x80")
        case True
        have ih: "unquoteRest cs =
            map_option ((@) (take (plainPrefix cs) cs)) (unquoteRest (drop (plainPrefix cs) cs))"
          using "1.IH" [rule_format, of cs] Cons by simp
        have p: "plainPrefix (c # cs) = Suc (plainPrefix cs)"
          using plain True by simp
        have u: "unquoteRest (c # cs) = map_option ((#) c) (unquoteRest cs)"
          using plain True by simp
        show ?thesis
          unfolding Cons u p
          by (subst ih) (simp add: map_option_prepend)
      next
        case False
        obtain r n where d: "DecodeRune (c # cs) = (r, n)"
          by (cases "DecodeRune (c # cs)")
        show ?thesis
        proof (cases "r = RuneError \<and> n = 1")
          case True
          then have "plainPrefix (c # cs) = 0"
            using plain False d by simp
          then show ?thesis
            using Cons by (simp add: option.map_ident del: unquoteRest.simps plainPrefix.simps)
        next
          case ok: False
          note w = DecodeRune_wide [OF False d ok]
          let ?rest = "drop (n - 1) cs"
          have ih: "unquoteRest ?rest =
              map_option ((@) (take (plainPrefix ?rest) ?rest))
                (unquoteRest (drop (plainPrefix ?rest) ?rest))"
            using "1.IH" [rule_format, of ?rest] Cons by simp
          have p: "plainPrefix (c # cs) = n + plainPrefix ?rest"
            using plain False d ok by simp
          have u: "unquoteRest (c # cs) = map_option ((@) (c # take (n - 1) cs)) (unquoteRest ?rest)"
            using plain False d w(3) by simp
          obtain m where m: "n = Suc m"
            using w(1) by (cases n) auto
          have t: "take (n + plainPrefix ?rest) (c # cs) =
              (c # take (n - 1) cs) @ take (plainPrefix ?rest) ?rest"
            unfolding m by (simp add: take_add)
          have dr: "drop (n + plainPrefix ?rest) (c # cs) = drop (plainPrefix ?rest) ?rest"
            unfolding m by (simp add: add.commute)
          show ?thesis
            unfolding Cons u p t dr
            by (subst ih) (simp add: map_option_prepend)
        qed
      qed
    qed
  qed
qed

lemma unquoteBytes_quoted: "unquoteBytes (CHR 0x22 # e @ [CHR 0x22]) = unquoteRest e"
proof -
  have "unquoteRest e = Some e" if "plainPrefix e = length e"
    using unquoteRest_plainPrefix [of e] that by simp
  then show ?thesis
    using unquoteRest_plainPrefix [of e]
    by (simp add: unquoteBytes_def Let_def butlast_append del: unquoteRest.simps)
qed

lemma unquoteBytes_appendString: "Valid t \<Longrightarrow> unquoteBytes (appendString t) = Some t"
  using unquoteBytes_quoted [of "escapeString t"] unquoteRest_escapeString [of t]
  by (simp add: appendString_def)

lemma step_update_same: "step s = X \<Longrightarrow> s\<lparr>step := X\<rparr> = s"
  by simp

lemma inString_plain:
  "step s = StateInString \<Longrightarrow> plainByte c \<Longrightarrow> scanStep s c = (s, scanContinue)"
  by (simp add: scanStep_def stateInString_def plainByte_def)

lemma scanBuffer_plain:
  "step s = StateInString \<Longrightarrow> list_all plainByte bs \<Longrightarrow>
   scanBuffer s k (bs @ rest) = scanBuffer s (k + length bs) rest"
  by (induction bs arbitrary: k) (simp_all add: inString_plain)

lemma inString_escape:
  assumes "step s = StateInString"
    and "e = CHR ''b'' \<or> e = CHR ''f'' \<or> e = CHR ''n'' \<or> e = CHR ''r'' \<or> e = CHR ''t'' \<or>
         e = CHR 0x5C \<or> e = CHR ''/'' \<or> e = CHR 0x22"
  shows "scanBuffer s k (CHR 0x5C # e # rest) = scanBuffer s (k + 2) rest"
proof -
  have 1: "scanStep s CHR 0x5C = (s\<lparr>step := StateInStringEsc\<rparr>, scanContinue)"
    using assms(1) by (simp add: scanStep_def stateInString_def)
  have 2: "scanStep (s\<lparr>step := StateInStringEsc\<rparr>) e = (s, scanContinue)"
    using assms by (auto simp: scanStep_def stateInStringEsc_def)
  show ?thesis
    by (simp add: 1 2)
qed

lemma inString_escapeU:
  assumes "step s = StateInString" "isHexDigit h1" "isHexDigit h2" "isHexDigit h3" "isHexDigit h4"
  shows "scanBuffer s k (CHR 0x5C # CHR ''u'' # h1 # h2 # h3 # h4 # rest) = scanBuffer s (k + 6) rest"
proof -
  have 1: "scanStep s CHR 0x5C = (s\<lparr>step := StateInStringEsc\<rparr>, scanContinue)"
    using assms(1) by (simp add: scanStep_def stateInString_def)
  have 2: "scanStep (s\<lparr>step := StateInStringEsc\<rparr>) CHR ''u'' = (s\<lparr>step := StateInStringEscU\<rparr>, scanContinue)"
    by (simp add: scanStep_def stateInStringEsc_def)
  have 3: "scanStep (s\<lparr>step := StateInStringEscU\<rparr>) h1 = (s\<lparr>step := StateInStringEscU1\<rparr>, scanContinue)"
    using assms by (simp add: scanStep_def stateInStringEscU_def)
  have 4: "scanStep (s\<lparr>step := StateInStringEscU1\<rparr>) h2 = (s\<lparr>step := StateInStringEscU12\<rparr>, scanContinue)"
    using assms by (simp add: scanStep_def stateInStringEscU1_def)
  have 5: "scanStep (s\<lparr>step := StateInStringEscU12\<rparr>) h3 = (s\<lparr>step := StateInStringEscU123\<rparr>, scanContinue)"
    using assms by (simp add: scanStep_def stateInStringEscU12_def)
  have 6: "scanStep (s\<lparr>step := StateInStringEscU123\<rparr>) h4 = (s, scanContinue)"
    using assms by (simp add: scanStep_def stateInStringEscU123_def)
  show ?thesis
    by (simp add: 1 2 3 4 5 6 eval_nat_numeral)
qed

lemma six: "Suc (Suc (Suc (Suc (Suc (Suc k))))) = k + 6"
  by simp

lemma isHexDigit_hex: "n < 16 \<Longrightarrow> isHexDigit (hex n)"
  using hex_cases [of n] by (auto simp: hex_def isHexDigit_def)

lemma htmlSafe_plain: "htmlSafe c \<Longrightarrow> plainByte c"
  by (auto simp: htmlSafe_def plainByte_def)

lemma escapeByte_cases:
  "(\<exists>e. escapeByte c = [CHR 0x5C, e] \<and>
      (e = CHR ''b'' \<or> e = CHR ''f'' \<or> e = CHR ''n'' \<or> e = CHR ''r'' \<or> e = CHR ''t'' \<or>
       e = CHR 0x5C \<or> e = CHR ''/'' \<or> e = CHR 0x22)) \<or>
   escapeByte c =
     [CHR 0x5C, CHR ''u'', CHR ''0'', CHR ''0'', hex (byte c div 16), hex (byte c mod 16)]"
  by (auto simp: escapeByte_def)

lemma scanBuffer_escapeByte:
  assumes "step s = StateInString"
  shows "scanBuffer s k (escapeByte c @ rest) = scanBuffer s (k + length (escapeByte c)) rest"
proof -
  have z: "isHexDigit CHR ''0''"
    by (simp add: isHexDigit_def)
  consider (short) e where "escapeByte c = [CHR 0x5C, e]"
      "e = CHR ''b'' \<or> e = CHR ''f'' \<or> e = CHR ''n'' \<or> e = CHR ''r'' \<or> e = CHR ''t'' \<or>
       e = CHR 0x5C \<or> e = CHR ''/'' \<or> e = CHR 0x22"
    | (long) "escapeByte c =
     [CHR 0x5C, CHR ''u'', CHR ''0'', CHR ''0'', hex (byte c div 16), hex (byte c mod 16)]"
    using escapeByte_cases [of c] by blast
  then show ?thesis
  proof cases
    case short
    then show ?thesis
      using inString_escape [OF assms, of e k rest] by (simp del: scanBuffer.simps)
  next
    case long
    then show ?thesis
      using inString_escapeU [OF assms z z isHexDigit_hex isHexDigit_hex, of "byte c div 16"
          "byte c mod 16" k rest] nibbles [of c]
      by (simp del: scanBuffer.simps add: six)
  qed
qed

lemma high_plain: "\<not> byte c < 0x80 \<Longrightarrow> plainByte c"
  using high_byte [of c] by (simp add: plainByte_def)

lemma high_plain_all:
  "list_all (\<lambda>b. \<not> byte b < 0x80) bs \<Longrightarrow> list_all plainByte bs"
  by (induction bs) (simp_all add: high_plain)

text \<open>The scanner reads the escaped form of any string as the inside of a string literal.\<close>

lemma scanBuffer_escapeString_all:
  assumes st: "step s = StateInString"
  shows "\<forall>k. scanBuffer s k (escapeString t @ rest) =
    scanBuffer s (k + length (escapeString t)) rest"
proof (induction t rule: length_induct)
  case (1 t)
  have ih: "scanBuffer s k' (escapeString u @ rest) =
      scanBuffer s (k' + length (escapeString u)) rest" if "length u < length t" for u k'
    using "1.IH" [rule_format, of u k'] that by simp
  have "scanBuffer s k (escapeString t @ rest) =
      scanBuffer s (k + length (escapeString t)) rest" for k
  proof (cases t)
    case Nil
    then show ?thesis by simp
  next
    case (Cons c cs)
    have chunk: "scanBuffer s k (escapeString t @ rest) =
        scanBuffer s (k + length (escapeString t)) rest"
      if e: "escapeString t = ch @ escapeString u" and u: "length u < length t"
        and c: "\<And>X. scanBuffer s k (ch @ X) = scanBuffer s (k + length ch) X" for ch u
      using c [of "escapeString u @ rest"] ih [OF u, of "k + length ch"]
      by (simp add: e add.assoc del: scanBuffer.simps)
    show ?thesis
    proof (cases "byte c < 0x80")
      case True
      show ?thesis
      proof (cases "htmlSafe c")
        case safe: True
        show ?thesis
        proof (rule chunk [of "[c]" cs])
          show "escapeString t = [c] @ escapeString cs"
            using Cons True safe by simp
          show "length cs < length t"
            using Cons by simp
          show "scanBuffer s k ([c] @ X) = scanBuffer s (k + length [c]) X" for X
            using scanBuffer_plain [OF st, of "[c]" k X] htmlSafe_plain [OF safe] by simp
        qed
      next
        case False
        show ?thesis
        proof (rule chunk [of "escapeByte c" cs])
          show "escapeString t = escapeByte c @ escapeString cs"
            using Cons True False by simp
          show "length cs < length t"
            using Cons by simp
          show "scanBuffer s k (escapeByte c @ X) = scanBuffer s (k + length (escapeByte c)) X" for X
            using scanBuffer_escapeByte [OF st] .
        qed
      qed
    next
      case False
      obtain r n where d: "DecodeRune (c # cs) = (r, n)"
        by (cases "DecodeRune (c # cs)")
      have hx: "isHexDigit CHR ''f''" "isHexDigit CHR ''d''" "isHexDigit CHR ''2''"
        "isHexDigit CHR ''0''"
        by (simp_all add: isHexDigit_def)
      show ?thesis
      proof (cases "r = RuneError \<and> n = 1")
        case True
        show ?thesis
        proof (rule chunk [of "[CHR 0x5C, CHR ''u'', CHR ''f'', CHR ''f'', CHR ''f'', CHR ''d'']" cs])
          show "escapeString t =
              [CHR 0x5C, CHR ''u'', CHR ''f'', CHR ''f'', CHR ''f'', CHR ''d''] @ escapeString cs"
            using Cons False d True by simp
          show "length cs < length t"
            using Cons by simp
          show "scanBuffer s k ([CHR 0x5C, CHR ''u'', CHR ''f'', CHR ''f'', CHR ''f'', CHR ''d''] @ X) =
              scanBuffer s (k + length [CHR 0x5C, CHR ''u'', CHR ''f'', CHR ''f'', CHR ''f'', CHR ''d'']) X"
            for X
            using inString_escapeU [OF st hx(1) hx(1) hx(1) hx(2), of k X]
            by (simp del: scanBuffer.simps add: six)
        qed
      next
        case ok: False
        note w = DecodeRune_wide [OF False d ok]
        have tk: "take n (c # cs) = c # take (n - 1) cs"
          using w(1) by (cases n) simp_all
        show ?thesis
        proof (cases "r = 0x2028 \<or> r = 0x2029")
          case True
          have h: "isHexDigit (hex (r mod 16))"
            using isHexDigit_hex [of "r mod 16"] by simp
          show ?thesis
          proof (rule chunk [of "[CHR 0x5C, CHR ''u'', CHR ''2'', CHR ''0'', CHR ''2'', hex (r mod 16)]"
                "drop (n - 1) cs"])
            show "escapeString t =
                [CHR 0x5C, CHR ''u'', CHR ''2'', CHR ''0'', CHR ''2'', hex (r mod 16)] @
                escapeString (drop (n - 1) cs)"
              using Cons False d ok True by auto
            show "length (drop (n - 1) cs) < length t"
              using Cons by simp
            show "scanBuffer s k ([CHR 0x5C, CHR ''u'', CHR ''2'', CHR ''0'', CHR ''2'', hex (r mod 16)] @ X) =
                scanBuffer s (k + length [CHR 0x5C, CHR ''u'', CHR ''2'', CHR ''0'', CHR ''2'', hex (r mod 16)]) X"
              for X
              using inString_escapeU [OF st hx(3) hx(4) hx(3) h, of k X]
              by (simp del: scanBuffer.simps add: six)
          qed
        next
          case sep: False
          show ?thesis
          proof (rule chunk [of "c # take (n - 1) cs" "drop (n - 1) cs"])
            show "escapeString t = (c # take (n - 1) cs) @ escapeString (drop (n - 1) cs)"
              using Cons False d ok sep tk by auto
            show "length (drop (n - 1) cs) < length t"
              using Cons by simp
            show "scanBuffer s k ((c # take (n - 1) cs) @ X) =
                scanBuffer s (k + length (c # take (n - 1) cs)) X" for X
              using scanBuffer_plain [OF st, of "c # take (n - 1) cs" k X] high_plain [OF False]
                high_plain_all [OF w(5)]
              by (simp del: scanBuffer.simps)
          qed
        qed
      qed
    qed
  qed
  then show ?case
    by blast
qed

lemma scanBuffer_escapeString:
  "step s = StateInString \<Longrightarrow>
   scanBuffer s k (escapeString t @ rest) = scanBuffer s (k + length (escapeString t)) rest"
  using scanBuffer_escapeString_all by blast

lemma eleven: "Suc (Suc (Suc (Suc (Suc (Suc (Suc (Suc (Suc (Suc (Suc 0)))))))))) = 11"
  by simp

lemma scan_response_prefix:
  \<open>scanBuffer reset 0 (''{"result":"'' @ X) = scanBuffer inResult 11 X\<close>
  by (simp add: inResult_def reset_def scanStep_def stateBeginValue_def isSpace_def
      pushParseState_def maxNestingDepth_def stateBeginStringOrEmpty_def stateBeginString_def
      stateInString_def stateEndValue_def less_char_def eleven)

lemma scan_response_suffix:
  \<open>scanBuffer inResult k (''"}'' @ X) = Found (k + 2)\<close>
  by (simp add: inResult_def scanStep_def stateInString_def stateEndValue_def isSpace_def
      popParseState_def stateEndTop_def Let_def)

lemma readValue_response:
  \<open>readValue (''{"result":'' @ appendString t @ ''}'' @ [CHR 0x0A]) =
     Inr (length (''{"result":'' @ appendString t @ ''}''))\<close>
proof -
  have e: \<open>''{"result":'' @ appendString t @ ''}'' @ [CHR 0x0A] =
      ''{"result":"'' @ escapeString t @ ''"}'' @ [CHR 0x0A]\<close>
    by (simp add: appendString_def)
  have s: "step inResult = StateInString"
    by (simp add: inResult_def)
  have \<open>scanBuffer reset 0 (''{"result":"'' @ escapeString t @ ''"}'' @ [CHR 0x0A]) =
      Found (11 + length (escapeString t) + 2)\<close>
    unfolding scan_response_prefix scanBuffer_escapeString [OF s] scan_response_suffix ..
  then show ?thesis
    unfolding e readValue_def by (simp add: appendString_def)
qed

section \<open>Properties of the flow and the handler\<close>

lemma Sprintf_prompt:
  "Sprintf ''The user's request is: %s'' [q] = ''The user's request is: '' @ q"
  by simp

lemma Error_fresh:
  "Error msg code newResponseWriter =
     \<lparr>Header = [''Content-Type'' \<mapsto> ''text/plain; charset=utf-8'',
                ''X-Content-Type-Options'' \<mapsto> ''nosniff''],
      Status = Some code, Written = msg @ [CHR 0x0A]\<rparr>"
  by (simp add: Error_def Write_def WriteHeader_def Set_def Del_def newResponseWriter_def Let_def)

lemma Execute_prompt:
  "Execute model travelAgentPrompt input tr =
     (model (modelRequest input), tr @ [CallModel (modelRequest input)])"
  unfolding Execute_def
  by (simp add: travelAgentPrompt_def promptFn_def Sprintf_prompt Let_def modelRequest_def)

lemma travelAgentFlow_result:
  "travelAgentFlow model input tr =
     (case model (modelRequest input) of Inl e \<Rightarrow> Inl e | Inr resp \<Rightarrow> Inr (Text resp),
      tr @ [CallModel (modelRequest input)])"
  by (simp add: travelAgentFlow_def Execute_prompt split: sum.splits)

text \<open>The two outcomes of a POST request: the body is decoded, or it is rejected.\<close>

lemma handler_post_decoded:
  "Method r = ''POST'' \<Longrightarrow> Decode (FoldRune x) (Body r) \<lparr>UserQuery = []\<rparr> = Inr input \<Longrightarrow>
   handler x w r =
     (case Model x (modelRequest input) of
        Inl e \<Rightarrow> Error e StatusInternalServerError w
      | Inr resp \<Rightarrow>
          Encode [(''result'', Text resp)]
            (WriteHeader StatusOK (Set ''Content-Type'' ''application/json'' w)),
      [ReadBody, RunFlow input, CallModel (modelRequest input)])"
  by (simp add: handler_def MethodPost_def Run_def travelAgentFlow_result split: sum.splits)

lemma handler_post_rejected:
  "Method r = ''POST'' \<Longrightarrow> Decode (FoldRune x) (Body r) \<lparr>UserQuery = []\<rparr> = Inl e \<Longrightarrow>
   handler x w r = (Error (''Invalid JSON: '' @ ErrorText x e) StatusBadRequest w, [ReadBody])"
  by (simp add: handler_def MethodPost_def)

lemma Encode_result:
  \<open>Encode [(''result'', t)]
     (WriteHeader StatusOK (Set ''Content-Type'' ''application/json'' newResponseWriter)) =
   \<lparr>Header = [''Content-Type'' \<mapsto> ''application/json''], Status = Some 200,
    Written = ''{'' @ appendString ''result'' @ '':'' @ appendString t @ ''}'' @ [CHR 0x0A]\<rparr>\<close>
  by (simp add: Encode_def Write_def WriteHeader_def Set_def newResponseWriter_def Let_def
      StatusOK_def marshalMap_def)

lemma appendString_result: \<open>appendString ''result'' = ''"result"''\<close>
  by code_simp

text \<open>
  Claim C1. The claim: a body that is valid JSON with a string field \<open>userQuery\<close> is
  delegated to the flow; a body that is malformed JSON or lacks the field \<open>userQuery\<close>, the
  empty object \<open>{}\<close> included, gets HTTP 400 without the flow being invoked. The handler
  does not do the second for a missing field: decoding \<open>{}\<close> succeeds and leaves
  \<open>UserQuery\<close> empty, so the flow runs with the empty query and the reply is 200, or 500 if
  the collaborator fails. The theorem evaluates the handler on the body \<open>{}\<close>.
\<close>

theorem handler_empty_object:
  \<open>handler x newResponseWriter \<lparr>Method = ''POST'', Body = ''{}''\<rparr> =
     (case Model x (modelRequest \<lparr>UserQuery = []\<rparr>) of
        Inl e \<Rightarrow> Error e 500 newResponseWriter
      | Inr resp \<Rightarrow>
          \<lparr>Header = [''Content-Type'' \<mapsto> ''application/json''], Status = Some 200,
           Written = ''{"result":'' @ appendString (Text resp) @ ''}'' @ [CHR 0x0A]\<rparr>,
      [ReadBody, RunFlow \<lparr>UserQuery = []\<rparr>, CallModel (modelRequest \<lparr>UserQuery = []\<rparr>)])\<close>
  using handler_post_decoded [of \<open>\<lparr>Method = ''POST'', Body = ''{}''\<rparr>\<close> x \<open>\<lparr>UserQuery = []\<rparr>\<close>
      newResponseWriter] Decode_empty_object [of "FoldRune x"]
  by (simp add: Encode_result appendString_result StatusInternalServerError_def
      split: sum.splits)

text \<open>
  Claim C2. For every HTTP method other than POST, the handler answers 405 (method not
  allowed) and returns before any attempt to read the request body, whatever the body is:
  the trace of calls is empty, and the result is the same for every body.
\<close>

theorem handler_method_not_allowed:
  "Method r \<noteq> ''POST'' \<Longrightarrow>
   handler x newResponseWriter r =
     (\<lparr>Header = [''Content-Type'' \<mapsto> ''text/plain; charset=utf-8'',
                 ''X-Content-Type-Options'' \<mapsto> ''nosniff''],
       Status = Some 405, Written = ''Method not allowed'' @ [CHR 0x0A]\<rparr>, []) \<and>
   ReadBody \<notin> set (snd (handler x newResponseWriter r)) \<and>
   handler x newResponseWriter (r\<lparr>Body := b\<rparr>) = handler x newResponseWriter r"
  by (simp add: handler_def MethodPost_def Error_fresh StatusMethodNotAllowed_def)

theorem handler_method_not_allowed_witness:
  \<open>Method \<lparr>Method = ''GET'', Body = ''{"userQuery":"hi"}''\<rparr> \<noteq> ''POST'' \<and>
   handler \<lparr>Model = \<lambda>q. Inr \<lparr>Text = ''ok''\<rparr>, ErrorText = \<lambda>e. [], FoldRune = \<lambda>r. r\<rparr>
     newResponseWriter \<lparr>Method = ''GET'', Body = ''{"userQuery":"hi"}''\<rparr> =
     (\<lparr>Header = [''Content-Type'' \<mapsto> ''text/plain; charset=utf-8'',
                 ''X-Content-Type-Options'' \<mapsto> ''nosniff''],
       Status = Some 405, Written = ''Method not allowed'' @ [CHR 0x0A]\<rparr>, [])\<close>
  using handler_method_not_allowed [of \<open>\<lparr>Method = ''GET'', Body = ''{"userQuery":"hi"}''\<rparr>\<close>
      \<open>\<lparr>Model = \<lambda>q. Inr \<lparr>Text = ''ok''\<rparr>, ErrorText = \<lambda>e. [], FoldRune = \<lambda>r. r\<rparr>\<close>]
  by simp

text \<open>
  Claim C6. Whenever the travel agent flow returns successfully with text t, the handler
  answers with status 200 and a body that is a JSON object with exactly one field,
  \<open>result\<close>, whose value is t. The body is \<open>{"result":\<close>, the string literal that the
  encoder writes for t, \<open>}\<close> and the newline that ends every value the encoder writes. The
  JSON scanner reads the body up to the newline as one complete value, and for a text t
  that is well-formed UTF-8 the string literal denotes t: unquoting it gives t back.
\<close>

theorem success_response:
  assumes "Method r = ''POST''"
    and "Decode (FoldRune x) (Body r) \<lparr>UserQuery = []\<rparr> = Inr input"
    and "travelAgentFlow (Model x) input [ReadBody, RunFlow input] = (Inr t, tr)"
  shows \<open>handler x newResponseWriter r =
      (\<lparr>Header = [''Content-Type'' \<mapsto> ''application/json''], Status = Some 200,
        Written = ''{"result":'' @ appendString t @ ''}'' @ [CHR 0x0A]\<rparr>, tr) \<and>
    readValue (''{"result":'' @ appendString t @ ''}'' @ [CHR 0x0A]) =
      Inr (length (''{"result":'' @ appendString t @ ''}'')) \<and>
    unquoteBytes ''"result"'' = Some ''result'' \<and>
    (Valid t \<longrightarrow> unquoteBytes (appendString t) = Some t)\<close>
proof -
  have h: \<open>handler x newResponseWriter r =
      (\<lparr>Header = [''Content-Type'' \<mapsto> ''application/json''], Status = Some 200,
        Written = ''{"result":'' @ appendString t @ ''}'' @ [CHR 0x0A]\<rparr>, tr)\<close>
    using assms
    by (auto simp: handler_def MethodPost_def Run_def Encode_result appendString_result)
  have k: \<open>unquoteBytes ''"result"'' = Some ''result''\<close>
    using unquoteBytes_appendString [of "''result''"]
    by (simp add: appendString_result byte_def del: unquoteRest.simps)
  show ?thesis
    using h k readValue_response [of t] unquoteBytes_appendString [of t] by blast
qed

theorem success_response_witness:
  \<open>Method \<lparr>Method = ''POST'', Body = ''{"userQuery":"hi"}''\<rparr> = ''POST'' \<and>
   Decode (\<lambda>r. r) ''{"userQuery":"hi"}'' \<lparr>UserQuery = []\<rparr> = Inr \<lparr>UserQuery = ''hi''\<rparr> \<and>
   travelAgentFlow (\<lambda>q. Inr \<lparr>Text = ''Fly to Oslo.''\<rparr>) \<lparr>UserQuery = ''hi''\<rparr>
     [ReadBody, RunFlow \<lparr>UserQuery = ''hi''\<rparr>] =
     (Inr ''Fly to Oslo.'',
      [ReadBody, RunFlow \<lparr>UserQuery = ''hi''\<rparr>, CallModel (modelRequest \<lparr>UserQuery = ''hi''\<rparr>)]) \<and>
   handler \<lparr>Model = \<lambda>q. Inr \<lparr>Text = ''Fly to Oslo.''\<rparr>, ErrorText = \<lambda>e. [], FoldRune = \<lambda>r. r\<rparr>
     newResponseWriter \<lparr>Method = ''POST'', Body = ''{"userQuery":"hi"}''\<rparr> =
     (\<lparr>Header = [''Content-Type'' \<mapsto> ''application/json''], Status = Some 200,
       Written = ''{"result":"Fly to Oslo."}'' @ [CHR 0x0A]\<rparr>,
      [ReadBody, RunFlow \<lparr>UserQuery = ''hi''\<rparr>, CallModel (modelRequest \<lparr>UserQuery = ''hi''\<rparr>)]) \<and>
   Valid ''Fly to Oslo.'' \<and>
   unquoteBytes ''"Fly to Oslo."'' = Some ''Fly to Oslo.''\<close>
proof -
  let ?x = \<open>\<lparr>Model = \<lambda>q. Inr \<lparr>Text = ''Fly to Oslo.''\<rparr>, ErrorText = \<lambda>e. [], FoldRune = \<lambda>r. r\<rparr>\<close>
  let ?r = \<open>\<lparr>Method = ''POST'', Body = ''{"userQuery":"hi"}''\<rparr>\<close>
  have a: \<open>appendString ''Fly to Oslo.'' = ''"Fly to Oslo."''\<close>
    by code_simp
  have v: \<open>Valid ''Fly to Oslo.''\<close>
    by (simp add: byte_def)
  have m: "Method ?r = ''POST''"
    by simp
  have d: \<open>Decode (FoldRune ?x) (Body ?r) \<lparr>UserQuery = []\<rparr> = Inr \<lparr>UserQuery = ''hi''\<rparr>\<close>
    using Decode_hi [of "\<lambda>r. r"] by simp
  have f: \<open>travelAgentFlow (Model ?x) \<lparr>UserQuery = ''hi''\<rparr>
     [ReadBody, RunFlow \<lparr>UserQuery = ''hi''\<rparr>] =
     (Inr ''Fly to Oslo.'',
      [ReadBody, RunFlow \<lparr>UserQuery = ''hi''\<rparr>, CallModel (modelRequest \<lparr>UserQuery = ''hi''\<rparr>)])\<close>
    by (simp add: travelAgentFlow_result)
  note t = success_response [OF m d f]
  show ?thesis
    using m d f v t [THEN conjunct1] t [THEN conjunct2, THEN conjunct2, THEN conjunct2]
    by (simp add: a del: unquoteRest.simps)
qed






end
